theory Spec2Isabelle
  imports Main "HOL-Library.Word"
begin

text \<open>
  A shallow embedding of the subscription service: the handlers of
  \<open>internal/handler\<close>, the \<open>SubscriptionService\<close> of the service package and the
  \<open>SubscriptionRepository\<close> over GORM, with the parts of Go's \<open>time\<close> package and of
  \<open>github.com/google/uuid\<close> that they call. Errors are values of a sum type, the
  database is passed through every call, and logging is left out.
\<close>

section \<open>Calendar time (Go's \<open>time\<close> package, UTC only)\<close>

text \<open>
  A \<open>time.Time\<close> is an instant. The service only builds instants in UTC with zero
  nanoseconds, so an instant is modelled as the number of seconds since
  1970-01-01T00:00:00Z. \<open>Before\<close> is \<open><\<close> on instants and the SQL comparisons
  \<open><=\<close>, \<open>>=\<close> on timestamps are \<open>\<le>\<close>, \<open>\<ge>\<close>.
\<close>

type_synonym Time = int

definition isLeap :: "int \<Rightarrow> bool" where
  "isLeap year = (year mod 4 = 0 \<and> (year mod 100 \<noteq> 0 \<or> year mod 400 = 0))"

text \<open>\<open>daysBefore m\<close> is Go's table entry \<open>daysBefore[m]\<close>: the number of days in a
  non-leap year before month \<open>m + 1\<close> starts.\<close>

definition daysBefore :: "int \<Rightarrow> int" where
  "daysBefore m = [0, 31, 59, 90, 120, 151, 181, 212, 243, 273, 304, 334, 365] ! nat m"

definition daysIn :: "int \<Rightarrow> int \<Rightarrow> int" where
  "daysIn m year = (if m = 2 \<and> isLeap year then 29 else daysBefore m - daysBefore (m - 1))"

text \<open>Days from 0001-01-01 (proleptic Gregorian) to 1 January of \<open>year\<close>.\<close>

definition daysBeforeYear :: "int \<Rightarrow> int" where
  "daysBeforeYear year =
     365 * (year - 1) + (year - 1) div 4 - (year - 1) div 100 + (year - 1) div 400"

definition unixEpochDays :: int where
  "unixEpochDays = 719162"

text \<open>
  \<open>time.Date(year, month, day, hour, min, sec, 0, time.UTC)\<close>. Values outside their
  usual ranges are normalised: the month is reduced into 1..12 with the carry added to
  the year, and the day, hour, minute and second are added linearly to the first
  instant of that month, so that day 0 is the last day of the month before.
\<close>

definition time_Date :: "int \<Rightarrow> int \<Rightarrow> int \<Rightarrow> int \<Rightarrow> int \<Rightarrow> int \<Rightarrow> Time" where
  "time_Date year month day hour minute sec =
     (let m0 = month - 1;
          y = year + m0 div 12;
          m = m0 mod 12 + 1;
          d = daysBeforeYear y - unixEpochDays + daysBefore (m - 1)
              + (if isLeap y \<and> m \<ge> 3 then 1 else 0) + (day - 1)
      in d * 86400 + hour * 3600 + minute * 60 + sec)"

text \<open>The year in which day number \<open>d\<close> (counted from 0001-01-01) falls: an estimate
  from the mean year length, corrected by at most one year.\<close>

definition yearOfDays :: "int \<Rightarrow> int" where
  "yearOfDays d =
     (let y0 = (400 * d) div 146097 + 1
      in if d < daysBeforeYear y0 then y0 - 1
         else if daysBeforeYear (y0 + 1) \<le> d then y0 + 1
         else y0)"

definition absDays :: "Time \<Rightarrow> int" where
  "absDays t = t div 86400 + unixEpochDays"

definition Year :: "Time \<Rightarrow> int" where
  "Year t = yearOfDays (absDays t)"

text \<open>\<open>Time.Month\<close>, following Go's computation from the day of the year: a leap day is
  February, days after it are shifted back by one, and the month is estimated as
  \<open>day / 31\<close> and corrected with the table.\<close>

definition monthOfYday :: "bool \<Rightarrow> int \<Rightarrow> int" where
  "monthOfYday leap yday =
     (if leap \<and> yday = 31 + 29 - 1 then 2
      else
        (let day = (if leap \<and> yday > 31 + 29 - 1 then yday - 1 else yday);
             month = day div 31
         in if day \<ge> daysBefore (month + 1) then month + 2 else month + 1))"

definition Month :: "Time \<Rightarrow> int" where
  "Month t =
     (let d = absDays t; y = yearOfDays d
      in monthOfYday (isLeap y) (d - daysBeforeYear y))"

text \<open>The day number of the first day of a month.\<close>

definition monthStartDay :: "int \<Rightarrow> int \<Rightarrow> int" where
  "monthStartDay y m = daysBefore (m - 1) + (if isLeap y \<and> m \<ge> 3 then 1 else 0)"

section \<open>Errors\<close>

text \<open>
  The error values the Go code produces: a \<open>*time.ParseError\<close> from \<open>time.Parse\<close>,
  the service's \<open>errors.New("end_date must be after start_date")\<close>,
  \<open>gorm.ErrRecordNotFound\<close>, any other error reported by the database driver, and
  \<open>fmt.Errorf("...: %w", err)\<close>, which wraps an error under a prefix.
\<close>

datatype error =
    ParseError string
  | ErrEndBeforeStart
  | ErrRecordNotFound
  | DriverError string
  | Wrapped string error

text \<open>\<open>errors.Is\<close>: the target is the error itself or is reached by unwrapping.\<close>

fun errors_Is :: "error \<Rightarrow> error \<Rightarrow> bool" where
  "errors_Is (Wrapped p e) target = (Wrapped p e = target \<or> errors_Is e target)"
| "errors_Is e target = (e = target)"

text \<open>The error kinds of the specification, and the kind of each error value.\<close>

datatype error_kind = InvalidDate | InvalidDateRange | NotFound | PersistenceError

fun kind_of :: "error \<Rightarrow> error_kind" where
  "kind_of (ParseError v) = InvalidDate"
| "kind_of ErrEndBeforeStart = InvalidDateRange"
| "kind_of ErrRecordNotFound = NotFound"
| "kind_of (DriverError m) = PersistenceError"
| "kind_of (Wrapped p e) = kind_of e"

section \<open>Parsing month-year text\<close>

definition isDigit :: "char \<Rightarrow> bool" where
  "isDigit c = (48 \<le> (of_char c :: nat) \<and> (of_char c :: nat) \<le> 57)"

definition digitVal :: "char \<Rightarrow> int" where
  "digitVal c = int (of_char c) - 48"

text \<open>
  \<open>time.Parse\<close> with the layout \<open>"01-2006"\<close>: exactly two digits of month, a hyphen,
  exactly four digits of year and nothing more; the month must lie in 1..12. The
  result is the pair (year, month) from which \<open>time.Parse\<close> builds the instant.
\<close>

definition parse_01_2006 :: "string \<Rightarrow> (int \<times> int) option" where
  "parse_01_2006 v =
     (case v of
        [m1, m2, sep, y1, y2, y3, y4] \<Rightarrow>
          if isDigit m1 \<and> isDigit m2 \<and> sep = CHR ''-''
             \<and> isDigit y1 \<and> isDigit y2 \<and> isDigit y3 \<and> isDigit y4
          then
            (let month = digitVal m1 * 10 + digitVal m2;
                 year = ((digitVal y1 * 10 + digitVal y2) * 10 + digitVal y3) * 10 + digitVal y4
             in if month \<le> 0 \<or> 12 < month then None else Some (year, month))
          else None
      | _ \<Rightarrow> None)"

definition parseMonthYear :: "string \<Rightarrow> error + Time" where
  "parseMonthYear dateStr =
     (case parse_01_2006 dateStr of
        None \<Rightarrow> Inl (ParseError dateStr)
      | Some (year, month) \<Rightarrow> Inr (time_Date year month 1 0 0 0))"

section \<open>Identifiers (\<open>github.com/google/uuid\<close>)\<close>

type_synonym UUID = "8 word list"

definition uuid_Nil :: UUID where
  "uuid_Nil = replicate 16 0"

definition xvalues :: "char \<Rightarrow> 8 word" where
  "xvalues c =
     (let n = (of_char c :: nat)
      in if 48 \<le> n \<and> n \<le> 57 then of_nat (n - 48)
         else if 65 \<le> n \<and> n \<le> 70 then of_nat (n - 55)
         else if 97 \<le> n \<and> n \<le> 102 then of_nat (n - 87)
         else 255)"

definition xtob :: "char \<Rightarrow> char \<Rightarrow> 8 word \<times> bool" where
  "xtob x1 x2 =
     (let b1 = xvalues x1; b2 = xvalues x2
      in (or (push_bit 4 b1) b2, b1 \<noteq> 255 \<and> b2 \<noteq> 255))"

text \<open>The loop over the sixteen byte offsets of the hyphenated form: a byte is stored
  only when both of its digits are hexadecimal, and the first bad pair stops the loop
  with the bytes stored so far.\<close>

fun parse_pairs :: "string \<Rightarrow> nat list \<Rightarrow> nat \<Rightarrow> UUID \<Rightarrow> UUID \<times> bool" where
  "parse_pairs s [] i uuid = (uuid, True)"
| "parse_pairs s (x # xs) i uuid =
     (case xtob (s ! x) (s ! (x + 1)) of
        (v, ok) \<Rightarrow> if \<not> ok then (uuid, False) else parse_pairs s xs (i + 1) (uuid[i := v]))"

text \<open>The loop of the 32-digit form, which stores the byte before it tests it.\<close>

fun parse_raw :: "string \<Rightarrow> nat list \<Rightarrow> UUID \<Rightarrow> UUID \<times> bool" where
  "parse_raw s [] uuid = (uuid, True)"
| "parse_raw s (i # is) uuid =
     (case xtob (s ! (i * 2)) (s ! (i * 2 + 1)) of
        (v, ok) \<Rightarrow> if \<not> ok then (uuid[i := v], False) else parse_raw s is (uuid[i := v]))"

definition toLower :: "char \<Rightarrow> char" where
  "toLower c =
     (let n = (of_char c :: nat) in if 65 \<le> n \<and> n \<le> 90 then char_of (n + 32) else c)"

definition parse_hyphenated :: "string \<Rightarrow> UUID \<times> string option" where
  "parse_hyphenated s =
     (if s ! 8 \<noteq> CHR ''-'' \<or> s ! 13 \<noteq> CHR ''-'' \<or> s ! 18 \<noteq> CHR ''-'' \<or> s ! 23 \<noteq> CHR ''-''
      then (uuid_Nil, Some ''invalid UUID format'')
      else
        (case parse_pairs s [0, 2, 4, 6, 9, 11, 14, 16, 19, 21, 24, 26, 28, 30, 32, 34] 0 uuid_Nil of
           (uuid, ok) \<Rightarrow> (uuid, if ok then None else Some ''invalid UUID format'')))"

text \<open>
  \<open>uuid.Parse\<close>: the accepted lengths are 36 (hyphenated), 45 (with the prefix
  \<open>urn:uuid:\<close>, compared without regard to case), 38 (one character on each side of
  the hyphenated form, not examined) and 32 (hexadecimal digits only). The identifier
  is returned together with the error; on an error it holds whatever was decoded
  before the error.
\<close>

definition uuid_Parse :: "string \<Rightarrow> UUID \<times> string option" where
  "uuid_Parse s =
     (if length s = 36 then parse_hyphenated s
      else if length s = 36 + 9 then
        (if map toLower (take 9 s) \<noteq> ''urn:uuid:'' then (uuid_Nil, Some ''invalid urn prefix'')
         else parse_hyphenated (drop 9 s))
      else if length s = 36 + 2 then parse_hyphenated (drop 1 s)
      else if length s = 32 then
        (case parse_raw s [0 ..< 16] uuid_Nil of
           (uuid, ok) \<Rightarrow> (uuid, if ok then None else Some ''invalid UUID format''))
      else (uuid_Nil, Some ''invalid UUID length''))"

section \<open>The entity\<close>

record Subscription =
  ID :: UUID
  ServiceName :: string
  Price :: int
  UserID :: UUID
  StartDate :: Time
  EndDate :: "Time option"


section \<open>The repository (\<open>SubscriptionRepository\<close>, on GORM and PostgreSQL)\<close>

text \<open>
  The database is the list of rows of the subscriptions table together with the
  outcomes the driver will report for the statements still to come: each repository
  method issues one statement, which takes the head of \<open>faults\<close> (\<open>None\<close>, or an
  empty list, means that the statement runs; \<open>Some msg\<close> that the driver fails with
  \<open>msg\<close> and the table is left as it was).
\<close>

record DB =
  rows :: "Subscription list"
  faults :: "string option list"

definition exec_stmt :: "DB \<Rightarrow> string option \<times> DB" where
  "exec_stmt db =
     (case faults db of
        [] \<Rightarrow> (None, db)
      | f # fs \<Rightarrow> (f, db\<lparr>faults := fs\<rparr>))"

text \<open>\<open>db.Create(sub)\<close>: an INSERT of the row.\<close>

definition repo_Create :: "Subscription \<Rightarrow> DB \<Rightarrow> error option \<times> DB" where
  "repo_Create sub db =
     (case exec_stmt db of
        (Some msg, db') \<Rightarrow> (Some (DriverError msg), db')
      | (None, db') \<Rightarrow> (None, db'\<lparr>rows := rows db' @ [sub]\<rparr>))"

text \<open>\<open>db.First(&sub, "id = ?", id)\<close>: the first row with that id, or
  \<open>gorm.ErrRecordNotFound\<close> when there is none.\<close>

definition repo_GetByID :: "UUID \<Rightarrow> DB \<Rightarrow> (error + Subscription) \<times> DB" where
  "repo_GetByID id' db =
     (case exec_stmt db of
        (Some msg, db') \<Rightarrow> (Inl (DriverError msg), db')
      | (None, db') \<Rightarrow>
          (case find (\<lambda>r. ID r = id') (rows db') of
             None \<Rightarrow> (Inl ErrRecordNotFound, db')
           | Some sub \<Rightarrow> (Inr sub, db')))"

text \<open>\<open>db.Save(sub)\<close>: an UPDATE of all columns of the rows with the primary key of
  \<open>sub\<close>; when no row has that key, GORM inserts the row.\<close>

definition repo_Update :: "Subscription \<Rightarrow> DB \<Rightarrow> error option \<times> DB" where
  "repo_Update sub db =
     (case exec_stmt db of
        (Some msg, db') \<Rightarrow> (Some (DriverError msg), db')
      | (None, db') \<Rightarrow>
          (None,
           db'\<lparr>rows := (if list_ex (\<lambda>r. ID r = ID sub) (rows db')
                         then map (\<lambda>r. if ID r = ID sub then sub else r) (rows db')
                         else rows db' @ [sub])\<rparr>))"

text \<open>\<open>db.Delete(&models.Subscription{}, "id = ?", id)\<close>: a DELETE of the rows with that
  id. GORM reports the number of rows affected and no error when no row matches.\<close>

definition repo_Delete :: "UUID \<Rightarrow> DB \<Rightarrow> error option \<times> DB" where
  "repo_Delete id' db =
     (case exec_stmt db of
        (Some msg, db') \<Rightarrow> (Some (DriverError msg), db')
      | (None, db') \<Rightarrow> (None, db'\<lparr>rows := filter (\<lambda>r. ID r \<noteq> id') (rows db')\<rparr>))"

text \<open>The listing query: a \<open>Where\<close> clause is added for a user id other than
  \<open>uuid.Nil\<close> and for a non-empty service name.\<close>

definition repo_List :: "UUID \<Rightarrow> string \<Rightarrow> DB \<Rightarrow> (error + Subscription list) \<times> DB" where
  "repo_List userID serviceName db =
     (case exec_stmt db of
        (Some msg, db') \<Rightarrow> (Inl (DriverError msg), db')
      | (None, db') \<Rightarrow>
          (let q = rows db';
               q = (if userID \<noteq> uuid_Nil then filter (\<lambda>r. UserID r = userID) q else q);
               q = (if serviceName \<noteq> [] then filter (\<lambda>r. ServiceName r = serviceName) q else q)
           in (Inr q, db')))"

text \<open>The aggregation query: \<open>COALESCE(SUM(price), 0)\<close> over the rows that pass each
  \<open>Where\<close> clause; a NULL \<open>end_date\<close> passes the second clause. A failure of the
  query is wrapped.\<close>

definition repo_Aggregate ::
  "Time \<Rightarrow> Time \<Rightarrow> UUID option \<Rightarrow> string option \<Rightarrow> DB \<Rightarrow> (error + int) \<times> DB" where
  "repo_Aggregate start end userID serviceName db =
     (case exec_stmt db of
        (Some msg, db') \<Rightarrow> (Inl (Wrapped ''aggregation query failed'' (DriverError msg)), db')
      | (None, db') \<Rightarrow>
          (let q = filter (\<lambda>r. StartDate r \<le> end) (rows db');
               q = filter (\<lambda>r. case EndDate r of None \<Rightarrow> True | Some e \<Rightarrow> e \<ge> start) q;
               q = (case userID of None \<Rightarrow> q | Some u \<Rightarrow> filter (\<lambda>r. UserID r = u) q);
               q = (case serviceName of None \<Rightarrow> q | Some n \<Rightarrow> filter (\<lambda>r. ServiceName r = n) q)
           in (Inr (sum_list (map Price q)), db')))"

section \<open>The service (\<open>SubscriptionService\<close>)\<close>

text \<open>\<open>subID\<close> is the identifier that \<open>uuid.New()\<close> returns in this call.\<close>

definition service_Create ::
  "UUID \<Rightarrow> string \<Rightarrow> int \<Rightarrow> UUID \<Rightarrow> string \<Rightarrow> string \<Rightarrow> DB \<Rightarrow> (error + Subscription) \<times> DB" where
  "service_Create subID serviceName price userID startDateStr endDateStr db =
     (case parseMonthYear startDateStr of
        Inl err \<Rightarrow> (Inl (Wrapped ''invalid start_date'' err), db)
      | Inr startDate \<Rightarrow>
          (let checked =
                 (if endDateStr \<noteq> [] then
                    (case parseMonthYear endDateStr of
                       Inl err \<Rightarrow> Inl (Wrapped ''invalid end_date'' err)
                     | Inr ed \<Rightarrow> if ed < startDate then Inl ErrEndBeforeStart else Inr (Some ed))
                  else Inr None)
           in case checked of
                Inl err \<Rightarrow> (Inl err, db)
              | Inr endDate \<Rightarrow>
                  (let sub = \<lparr>ID = subID, ServiceName = serviceName, Price = price,
                              UserID = userID, StartDate = startDate, EndDate = endDate\<rparr>
                   in case repo_Create sub db of
                        (Some err, db') \<Rightarrow> (Inl err, db')
                      | (None, db') \<Rightarrow> (Inr sub, db'))))"

definition service_GetByID :: "UUID \<Rightarrow> DB \<Rightarrow> (error + Subscription) \<times> DB" where
  "service_GetByID id' db =
     (case repo_GetByID id' db of
        (Inl err, db') \<Rightarrow> (Inl err, db')
      | (Inr sub, db') \<Rightarrow> (Inr sub, db'))"

definition service_Update ::
  "UUID \<Rightarrow> string \<Rightarrow> int \<Rightarrow> string \<Rightarrow> string \<Rightarrow> DB \<Rightarrow> (error + Subscription) \<times> DB" where
  "service_Update id' serviceName price startDateStr endDateStr db =
     (case repo_GetByID id' db of
        (Inl err, db1) \<Rightarrow> (Inl err, db1)
      | (Inr sub, db1) \<Rightarrow>
          (let sub = (if serviceName \<noteq> [] then sub\<lparr>ServiceName := serviceName\<rparr> else sub);
               sub = (if price > 0 then sub\<lparr>Price := price\<rparr> else sub);
               started =
                 (if startDateStr \<noteq> [] then
                    (case parseMonthYear startDateStr of
                       Inl err \<Rightarrow> Inl (Wrapped ''invalid start_date'' err)
                     | Inr startDate \<Rightarrow> Inr (sub\<lparr>StartDate := startDate\<rparr>))
                  else Inr sub)
           in case started of
                Inl err \<Rightarrow> (Inl err, db1)
              | Inr sub \<Rightarrow>
                  (let ended =
                         (if endDateStr \<noteq> [] then
                            (case parseMonthYear endDateStr of
                               Inl err \<Rightarrow> Inl (Wrapped ''invalid end_date'' err)
                             | Inr endDate \<Rightarrow>
                                 if endDate < StartDate sub then Inl ErrEndBeforeStart
                                 else Inr (sub\<lparr>EndDate := Some endDate\<rparr>))
                          else Inr (sub\<lparr>EndDate := None\<rparr>))
                   in case ended of
                        Inl err \<Rightarrow> (Inl err, db1)
                      | Inr sub \<Rightarrow>
                          (case repo_Update sub db1 of
                             (Some err, db2) \<Rightarrow> (Inl err, db2)
                           | (None, db2) \<Rightarrow> (Inr sub, db2)))))"

definition service_Delete :: "UUID \<Rightarrow> DB \<Rightarrow> error option \<times> DB" where
  "service_Delete id' db =
     (case repo_Delete id' db of
        (Some err, db') \<Rightarrow> (Some err, db')
      | (None, db') \<Rightarrow> (None, db'))"

definition service_List :: "UUID \<Rightarrow> string \<Rightarrow> DB \<Rightarrow> (error + Subscription list) \<times> DB" where
  "service_List userID serviceName db =
     (case repo_List userID serviceName db of
        (Inl err, db') \<Rightarrow> (Inl err, db')
      | (Inr subs, db') \<Rightarrow> (Inr subs, db'))"

definition service_Aggregate ::
  "string \<Rightarrow> string \<Rightarrow> UUID option \<Rightarrow> string option \<Rightarrow> DB \<Rightarrow> (error + int) \<times> DB" where
  "service_Aggregate startDateStr endDateStr userID serviceName db =
     (case parseMonthYear startDateStr of
        Inl err \<Rightarrow> (Inl (Wrapped ''invalid start_date'' err), db)
      | Inr startDate \<Rightarrow>
          (case parseMonthYear endDateStr of
             Inl err \<Rightarrow> (Inl (Wrapped ''invalid end_date'' err), db)
           | Inr endDate \<Rightarrow>
               (let startPeriod = time_Date (Year startDate) (Month startDate) 1 0 0 0;
                    endPeriod = time_Date (Year endDate) (Month endDate + 1) 0 23 59 59
                in case repo_Aggregate startPeriod endPeriod userID serviceName db of
                     (Inl err, db') \<Rightarrow> (Inl err, db')
                   | (Inr total', db') \<Rightarrow> (Inr total', db'))))"

section \<open>The HTTP handlers (\<open>SubscriptionHandler\<close>)\<close>

text \<open>
  The handler holds the service behind the interface \<open>SubscriptionService\<close> that
  \<open>handler.go\<close> declares: a record of the six operations over a state \<open>'s\<close>.
\<close>

record 's SubscriptionService =
  svcCreate :: "string \<Rightarrow> int \<Rightarrow> UUID \<Rightarrow> string \<Rightarrow> string \<Rightarrow> 's \<Rightarrow> (error + Subscription) \<times> 's"
  svcGetByID :: "UUID \<Rightarrow> 's \<Rightarrow> (error + Subscription) \<times> 's"
  svcUpdate :: "UUID \<Rightarrow> string \<Rightarrow> int \<Rightarrow> string \<Rightarrow> string \<Rightarrow> 's \<Rightarrow> (error + Subscription) \<times> 's"
  svcDelete :: "UUID \<Rightarrow> 's \<Rightarrow> error option \<times> 's"
  svcList :: "UUID \<Rightarrow> string \<Rightarrow> 's \<Rightarrow> (error + Subscription list) \<times> 's"
  svcAggregate :: "string \<Rightarrow> string \<Rightarrow> UUID option \<Rightarrow> string option \<Rightarrow> 's \<Rightarrow> (error + int) \<times> 's"

text \<open>The service of \<open>main\<close>: the \<open>SubscriptionService\<close> of the service package over
  the repository; \<open>subID\<close> is what \<open>uuid.New()\<close> returns while the request is served.\<close>

definition subscriptionService :: "UUID \<Rightarrow> DB SubscriptionService" where
  "subscriptionService subID =
     \<lparr>svcCreate = service_Create subID,
      svcGetByID = service_GetByID,
      svcUpdate = service_Update,
      svcDelete = service_Delete,
      svcList = service_List,
      svcAggregate = service_Aggregate\<rparr>"

text \<open>What \<open>c.JSON\<close> or \<open>c.Status\<close> writes: the status code and the JSON body.
  \<open>ErrorText m\<close> is the body \<open>{"error": m}\<close>, \<open>ErrorOf e\<close> the body
  \<open>{"error": e.Error()}\<close> and \<open>Total n\<close> the body \<open>{"total": n}\<close>.\<close>

datatype payload =
    ErrorText string
  | ErrorOf error
  | Entity Subscription
  | Entities "Subscription list"
  | Total int
  | NoBody

record response =
  status :: nat
  payload :: payload

definition StatusOK :: nat where "StatusOK = 200"
definition StatusCreated :: nat where "StatusCreated = 201"
definition StatusNoContent :: nat where "StatusNoContent = 204"
definition StatusBadRequest :: nat where "StatusBadRequest = 400"
definition StatusNotFound :: nat where "StatusNotFound = 404"
definition StatusInternalServerError :: nat where "StatusInternalServerError = 500"

text \<open>
  The request bodies, as the structs the handlers bind them to. A body is given as
  \<open>Inl msg\<close> when it cannot be decoded into the struct, else as the decoded struct
  with the zero value in each absent field. \<open>ShouldBindJSON\<close> then checks the
  \<open>binding\<close> tags: \<open>required\<close> refuses the zero value, \<open>gt=0\<close> a number that is not
  positive.
\<close>

record CreateRequest =
  c_ServiceName :: string
  c_Price :: int
  c_UserID :: UUID
  c_StartDate :: string
  c_EndDate :: string

record UpdateRequest =
  u_ServiceName :: string
  u_Price :: int
  u_StartDate :: string
  u_EndDate :: string

record AggregateRequest =
  a_StartDate :: string
  a_EndDate :: string
  a_UserID :: "UUID option"
  a_ServiceName :: "string option"

definition binding_Create :: "CreateRequest \<Rightarrow> string option" where
  "binding_Create req =
     (if c_ServiceName req = [] \<or> c_Price req = 0 \<or> c_Price req \<le> 0
         \<or> c_UserID req = uuid_Nil \<or> c_StartDate req = []
      then Some ''binding failed'' else None)"

definition binding_Update :: "UpdateRequest \<Rightarrow> string option" where
  "binding_Update req = None"

definition binding_Aggregate :: "AggregateRequest \<Rightarrow> string option" where
  "binding_Aggregate req =
     (if a_StartDate req = [] \<or> a_EndDate req = [] then Some ''binding failed'' else None)"

definition ShouldBindJSON :: "('r \<Rightarrow> string option) \<Rightarrow> string + 'r \<Rightarrow> string + 'r" where
  "ShouldBindJSON binding json =
     (case json of
        Inl msg \<Rightarrow> Inl msg
      | Inr req \<Rightarrow> (case binding req of Some msg \<Rightarrow> Inl msg | None \<Rightarrow> Inr req))"

definition handler_Create ::
  "'s SubscriptionService \<Rightarrow> string + CreateRequest \<Rightarrow> 's \<Rightarrow> response \<times> 's" where
  "handler_Create service json s =
     (case ShouldBindJSON binding_Create json of
        Inl msg \<Rightarrow> (\<lparr>status = StatusBadRequest, payload = ErrorText msg\<rparr>, s)
      | Inr req \<Rightarrow>
          (case svcCreate service (c_ServiceName req) (c_Price req) (c_UserID req)
                  (c_StartDate req) (c_EndDate req) s of
             (Inl err, s') \<Rightarrow> (\<lparr>status = StatusBadRequest, payload = ErrorOf err\<rparr>, s')
           | (Inr sub, s') \<Rightarrow> (\<lparr>status = StatusCreated, payload = Entity sub\<rparr>, s')))"

definition handler_GetByID :: "'s SubscriptionService \<Rightarrow> string \<Rightarrow> 's \<Rightarrow> response \<times> 's" where
  "handler_GetByID service idParam s =
     (case uuid_Parse idParam of
        (id', Some perr) \<Rightarrow>
          (\<lparr>status = StatusBadRequest, payload = ErrorText ''invalid subscription ID''\<rparr>, s)
      | (id', None) \<Rightarrow>
          (case svcGetByID service id' s of
             (Inl err, s') \<Rightarrow>
               if errors_Is err ErrRecordNotFound
               then (\<lparr>status = StatusNotFound, payload = ErrorText ''subscription not found''\<rparr>, s')
               else (\<lparr>status = StatusInternalServerError,
                      payload = ErrorText ''failed to get subscription''\<rparr>, s')
           | (Inr sub, s') \<Rightarrow> (\<lparr>status = StatusOK, payload = Entity sub\<rparr>, s')))"

definition handler_Update ::
  "'s SubscriptionService \<Rightarrow> string \<Rightarrow> string + UpdateRequest \<Rightarrow> 's \<Rightarrow> response \<times> 's" where
  "handler_Update service idParam json s =
     (case uuid_Parse idParam of
        (id', Some perr) \<Rightarrow>
          (\<lparr>status = StatusBadRequest, payload = ErrorText ''invalid subscription ID''\<rparr>, s)
      | (id', None) \<Rightarrow>
          (case ShouldBindJSON binding_Update json of
             Inl msg \<Rightarrow> (\<lparr>status = StatusBadRequest, payload = ErrorText msg\<rparr>, s)
           | Inr req \<Rightarrow>
               (case svcUpdate service id' (u_ServiceName req) (u_Price req)
                       (u_StartDate req) (u_EndDate req) s of
                  (Inl err, s') \<Rightarrow> (\<lparr>status = StatusBadRequest, payload = ErrorOf err\<rparr>, s')
                | (Inr sub, s') \<Rightarrow> (\<lparr>status = StatusOK, payload = Entity sub\<rparr>, s'))))"

definition handler_Delete :: "'s SubscriptionService \<Rightarrow> string \<Rightarrow> 's \<Rightarrow> response \<times> 's" where
  "handler_Delete service idParam s =
     (case uuid_Parse idParam of
        (id', Some perr) \<Rightarrow>
          (\<lparr>status = StatusBadRequest, payload = ErrorText ''invalid subscription ID''\<rparr>, s)
      | (id', None) \<Rightarrow>
          (case svcDelete service id' s of
             (Some err, s') \<Rightarrow>
               if errors_Is err ErrRecordNotFound
               then (\<lparr>status = StatusNotFound, payload = ErrorText ''subscription not found''\<rparr>, s')
               else (\<lparr>status = StatusInternalServerError,
                      payload = ErrorText ''failed to delete subscription''\<rparr>, s')
           | (None, s') \<Rightarrow> (\<lparr>status = StatusNoContent, payload = NoBody\<rparr>, s')))"

text \<open>\<open>List\<close> parses the query parameter \<open>user_id\<close> and only logs a warning when the
  parameter is not empty and does not parse: the identifier that \<open>uuid.Parse\<close>
  returned goes to the service either way.\<close>

definition handler_List ::
  "'s SubscriptionService \<Rightarrow> string \<Rightarrow> string \<Rightarrow> 's \<Rightarrow> response \<times> 's" where
  "handler_List service userIDParam serviceName s =
     (case uuid_Parse userIDParam of
        (userID, parseErr) \<Rightarrow>
          (case svcList service userID serviceName s of
             (Inl err, s') \<Rightarrow>
               (\<lparr>status = StatusInternalServerError,
                 payload = ErrorText ''failed to list subscriptions''\<rparr>, s')
           | (Inr subs, s') \<Rightarrow> (\<lparr>status = StatusOK, payload = Entities subs\<rparr>, s')))"

definition handler_Aggregate ::
  "'s SubscriptionService \<Rightarrow> string + AggregateRequest \<Rightarrow> 's \<Rightarrow> response \<times> 's" where
  "handler_Aggregate service json s =
     (case ShouldBindJSON binding_Aggregate json of
        Inl msg \<Rightarrow> (\<lparr>status = StatusBadRequest, payload = ErrorText msg\<rparr>, s)
      | Inr req \<Rightarrow>
          (case svcAggregate service (a_StartDate req) (a_EndDate req) (a_UserID req)
                  (a_ServiceName req) s of
             (Inl err, s') \<Rightarrow> (\<lparr>status = StatusInternalServerError, payload = ErrorOf err\<rparr>, s')
           | (Inr total', s') \<Rightarrow> (\<lparr>status = StatusOK, payload = Total total'\<rparr>, s')))"

section \<open>The notions of the specification\<close>

text \<open>The aggregation window of the specification: from the first instant of the
  first day of the start month to 23:59:59 on the last day of the end month.\<close>

definition windowStart :: "int \<Rightarrow> int \<Rightarrow> Time" where
  "windowStart year month = time_Date year month 1 0 0 0"

definition windowEnd :: "int \<Rightarrow> int \<Rightarrow> Time" where
  "windowEnd year month = time_Date year month (daysIn month year) 23 59 59"

text \<open>A subscription matches a window and the optional filters.\<close>

definition matches :: "Time \<Rightarrow> Time \<Rightarrow> UUID option \<Rightarrow> string option \<Rightarrow> Subscription \<Rightarrow> bool" where
  "matches wStart wEnd userID serviceName r =
     (StartDate r \<le> wEnd
      \<and> (EndDate r = None \<or> wStart \<le> the (EndDate r))
      \<and> (userID = None \<or> UserID r = the userID)
      \<and> (serviceName = None \<or> ServiceName r = the serviceName))"

text \<open>The subscription stored under an identifier.\<close>

definition stored :: "DB \<Rightarrow> UUID \<Rightarrow> Subscription option" where
  "stored db id' = find (\<lambda>r. ID r = id') (rows db)"

text \<open>The invariant on dates: an end date, when set, is not before the start date.\<close>

definition date_ordered :: "Subscription \<Rightarrow> bool" where
  "date_ordered r = (case EndDate r of None \<Rightarrow> True | Some e \<Rightarrow> StartDate r \<le> e)"

text \<open>The calls a client can make on the service, and a run of calls on a database.\<close>

datatype call =
    CallCreate UUID string int UUID string string
  | CallGetByID UUID
  | CallUpdate UUID string int string string
  | CallDelete UUID
  | CallList UUID string
  | CallAggregate string string "UUID option" "string option"

fun perform :: "call \<Rightarrow> DB \<Rightarrow> DB" where
  "perform (CallCreate subID serviceName price userID startDateStr endDateStr) db =
     snd (service_Create subID serviceName price userID startDateStr endDateStr db)"
| "perform (CallGetByID id') db = snd (service_GetByID id' db)"
| "perform (CallUpdate id' serviceName price startDateStr endDateStr) db =
     snd (service_Update id' serviceName price startDateStr endDateStr db)"
| "perform (CallDelete id') db = snd (service_Delete id' db)"
| "perform (CallList userID serviceName) db = snd (service_List userID serviceName db)"
| "perform (CallAggregate startDateStr endDateStr userID serviceName) db =
     snd (service_Aggregate startDateStr endDateStr userID serviceName db)"

fun run :: "call list \<Rightarrow> DB \<Rightarrow> DB" where
  "run [] db = db"
| "run (c # cs) db = run cs (perform c db)"

section \<open>Example data\<close>

text \<open>The scenario of the specification: user \<open>U\<close> holds Netflix at 1000 from 07-2025
  to 10-2025 and Spotify at 500 from 09-2025 with no end date.\<close>

definition example_user :: UUID where
  "example_user = [96, 96, 31, 238, 43, 241, 71, 33, 174, 111, 118, 54, 231, 154, 12, 186]"

definition example_id1 :: UUID where
  "example_id1 = [0, 0, 0, 0, 0, 0, 0, 0, 0, 0, 0, 0, 0, 0, 0, 1]"

definition example_id2 :: UUID where
  "example_id2 = [0, 0, 0, 0, 0, 0, 0, 0, 0, 0, 0, 0, 0, 0, 0, 2]"

definition netflix :: Subscription where
  "netflix = \<lparr>ID = example_id1, ServiceName = ''Netflix'', Price = 1000,
               UserID = example_user, StartDate = time_Date 2025 7 1 0 0 0,
               EndDate = Some (time_Date 2025 10 1 0 0 0)\<rparr>"

definition spotify :: Subscription where
  "spotify = \<lparr>ID = example_id2, ServiceName = ''Spotify'', Price = 500,
               UserID = example_user, StartDate = time_Date 2025 9 1 0 0 0,
               EndDate = None\<rparr>"

definition example_db :: DB where
  "example_db = \<lparr>rows = [netflix, spotify], faults = []\<rparr>"

section \<open>The mutation of \<open>Update\<close>, on its own\<close>

text \<open>What \<open>Update\<close> does to the entity it has loaded, between the lookup and the
  save: the entity to be saved, or the validation error. It is the body of
  \<open>service_Update\<close> without the two repository calls, and \<open>service_Update\<close> is shown
  below to be the lookup, this mutation and the save.\<close>

definition mutate :: "Subscription \<Rightarrow> string \<Rightarrow> int \<Rightarrow> string \<Rightarrow> string \<Rightarrow> error + Subscription" where
  "mutate sub serviceName price startDateStr endDateStr =
     (let sub = (if serviceName \<noteq> [] then sub\<lparr>ServiceName := serviceName\<rparr> else sub);
          sub = (if price > 0 then sub\<lparr>Price := price\<rparr> else sub)
      in case (if startDateStr \<noteq> [] then
                 (case parseMonthYear startDateStr of
                    Inl err \<Rightarrow> Inl (Wrapped ''invalid start_date'' err)
                  | Inr startDate \<Rightarrow> Inr (sub\<lparr>StartDate := startDate\<rparr>))
               else Inr sub) of
           Inl err \<Rightarrow> Inl err
         | Inr sub \<Rightarrow>
             (if endDateStr \<noteq> [] then
                (case parseMonthYear endDateStr of
                   Inl err \<Rightarrow> Inl (Wrapped ''invalid end_date'' err)
                 | Inr endDate \<Rightarrow>
                     if endDate < StartDate sub then Inl ErrEndBeforeStart
                     else Inr (sub\<lparr>EndDate := Some endDate\<rparr>))
              else Inr (sub\<lparr>EndDate := None\<rparr>)))"

text \<open>An identifier under which the example data stores nothing, and its text.\<close>

definition example_absent :: UUID where
  "example_absent = [0, 0, 0, 0, 0, 0, 0, 0, 0, 0, 0, 0, 0, 0, 0, 9]"

definition example_absent_text :: string where
  "example_absent_text = ''00000000-0000-0000-0000-000000000009''"

section \<open>Identifier texts\<close>

text \<open>
  The text forms of a UUID, stated on the text alone. The hyphenated form
  \<open>xxxxxxxx-xxxx-xxxx-xxxx-xxxxxxxxxxxx\<close> has 36 characters: hyphens at the
  positions 8, 13, 18 and 23 and a hexadecimal digit at every other position. A
  valid UUID text is the hyphenated form, the hyphenated form after the prefix
  \<open>urn:uuid:\<close> (in either case of its letters), the hyphenated form in braces, or 32
  hexadecimal digits.
\<close>

definition isHex :: "char \<Rightarrow> bool" where
  "isHex c =
     (let n = (of_char c :: nat)
      in (48 \<le> n \<and> n \<le> 57) \<or> (65 \<le> n \<and> n \<le> 70) \<or> (97 \<le> n \<and> n \<le> 102))"

definition hyphenated :: "string \<Rightarrow> bool" where
  "hyphenated s =
     (length s = 36
      \<and> list_all (\<lambda>i. if i = 8 \<or> i = 13 \<or> i = 18 \<or> i = 23 then s ! i = CHR ''-''
                       else isHex (s ! i)) [0 ..< 36])"

definition valid_uuid_text :: "string \<Rightarrow> bool" where
  "valid_uuid_text s =
     (hyphenated s
      \<or> (length s = 45 \<and> map toLower (take 9 s) = ''urn:uuid:'' \<and> hyphenated (drop 9 s))
      \<or> (length s = 38 \<and> hd s = CHR ''{'' \<and> last s = CHR ''}''
          \<and> hyphenated (take 36 (drop 1 s)))
      \<or> (length s = 32 \<and> list_all isHex s))"

text \<open>A text of 38 characters whose middle 36 characters are a hyphenated UUID,
  whatever its first and its last character are.\<close>

definition wrapped_uuid_text :: "string \<Rightarrow> bool" where
  "wrapped_uuid_text s = (length s = 38 \<and> hyphenated (take 36 (drop 1 s)))"

section \<open>Calendar arithmetic\<close>
lemma div_step:
  fixes n k :: int
  assumes "0 < k"
  shows "(n + 1) div k = n div k + (if (n + 1) mod k = 0 then 1 else 0)"
proof -
  define q where "q = n div k"
  define r where "r = n mod k"
  have n: "n = k * q + r" and r: "0 \<le> r" "r < k"
    using assms by (simp_all add: q_def r_def)
  show ?thesis
  proof (cases "r + 1 = k")
    case True
    then have e: "n + 1 = k * (q + 1)" using n by (simp add: algebra_simps)
    have "(n + 1) div k = q + 1" "(n + 1) mod k = 0"
      using assms unfolding e by simp_all
    then show ?thesis by (simp add: q_def)
  next
    case False
    then have lt: "r + 1 < k" using r by simp
    have e: "n + 1 = (r + 1) + q * k" using n by (simp add: algebra_simps)
    have "(n + 1) div k = q" "(n + 1) mod k = r + 1"
      using r lt unfolding e by simp_all
    then show ?thesis using r by (simp add: q_def)
  qed
qed

lemma mod_chain_4_100: "(y::int) mod 100 = 0 \<Longrightarrow> y mod 4 = 0"
proof -
  assume "y mod 100 = 0"
  then have "100 dvd y" by (simp add: dvd_eq_mod_eq_0)
  moreover have "(4::int) dvd 100" by simp
  ultimately have "4 dvd y" by (rule dvd_trans [rotated])
  then show ?thesis by simp
qed

lemma mod_chain_100_400: "(y::int) mod 400 = 0 \<Longrightarrow> y mod 100 = 0"
proof -
  assume "y mod 400 = 0"
  then have "400 dvd y" by (simp add: dvd_eq_mod_eq_0)
  moreover have "(100::int) dvd 400" by simp
  ultimately have "100 dvd y" by (rule dvd_trans [rotated])
  then show ?thesis by simp
qed

lemma daysBeforeYear_Suc:
  "daysBeforeYear (y + 1) = daysBeforeYear y + 365 + (if isLeap y then 1 else 0)"
proof -
  define q4 where "q4 = (y - 1) div 4"
  define q100 where "q100 = (y - 1) div 100"
  define q400 where "q400 = (y - 1) div 400"
  define s4 :: int where "s4 = (if y mod 4 = 0 then 1 else 0)"
  define s100 :: int where "s100 = (if y mod 100 = 0 then 1 else 0)"
  define s400 :: int where "s400 = (if y mod 400 = 0 then 1 else 0)"
  have a: "y div 4 = q4 + s4"
    using div_step [of 4 "y - 1"] by (simp add: q4_def s4_def)
  have b: "y div 100 = q100 + s100"
    using div_step [of 100 "y - 1"] by (simp add: q100_def s100_def)
  have c: "y div 400 = q400 + s400"
    using div_step [of 400 "y - 1"] by (simp add: q400_def s400_def)
  have d: "daysBeforeYear (y + 1) = 365 * y + y div 4 - y div 100 + y div 400"
    by (simp add: daysBeforeYear_def)
  have e: "daysBeforeYear y = 365 * (y - 1) + q4 - q100 + q400"
    by (simp add: daysBeforeYear_def q4_def q100_def q400_def)
  have l: "(if isLeap y then 1 else 0) = s4 - s100 + s400"
    using mod_chain_4_100 [of y] mod_chain_100_400 [of y]
    unfolding isLeap_def s4_def s100_def s400_def
    by (cases "y mod 4 = 0"; cases "y mod 100 = 0"; cases "y mod 400 = 0") simp_all
  show ?thesis
    unfolding d e l a b c by (simp add: algebra_simps)
qed
lemma daysBeforeYear_bounds:
  "146097 * (y - 1) - 699 \<le> 400 * daysBeforeYear y"
  "400 * daysBeforeYear y \<le> 146097 * (y - 1) + 396"
proof -
  define x where "x = y - 1"
  define q4 where "q4 = x div 4"
  define r4 where "r4 = x mod 4"
  define q100 where "q100 = x div 100"
  define r100 where "r100 = x mod 100"
  define q400 where "q400 = x div 400"
  define r400 where "r400 = x mod 400"
  have e: "x = 4 * q4 + r4" "x = 100 * q100 + r100" "x = 400 * q400 + r400"
    by (simp_all add: q4_def r4_def q100_def r100_def q400_def r400_def)
  have r: "0 \<le> r4" "r4 < 4" "0 \<le> r100" "r100 < 100" "0 \<le> r400" "r400 < 400"
    by (simp_all add: r4_def r100_def r400_def)
  have d: "daysBeforeYear y = 365 * x + q4 - q100 + q400"
    by (simp add: daysBeforeYear_def x_def q4_def q100_def q400_def)
  have f: "400 * q4 = 100 * x - 100 * r4" "400 * q100 = 4 * x - 4 * r100" "400 * q400 = x - r400"
    using e by simp_all
  have g: "400 * daysBeforeYear y = 146097 * x - 100 * r4 + 4 * r100 - r400"
    unfolding d using f by (simp add: algebra_simps)
  show "146097 * (y - 1) - 699 \<le> 400 * daysBeforeYear y"
    unfolding g x_def [symmetric] using r by simp
  show "400 * daysBeforeYear y \<le> 146097 * (y - 1) + 396"
    unfolding g x_def [symmetric] using r by simp
qed
lemma yearOfDays_in_year:
  assumes "0 \<le> k" "k < 365 + (if isLeap y then 1 else 0)"
  shows "yearOfDays (daysBeforeYear y + k) = y"
proof -
  define d where "d = daysBeforeYear y + k"
  define q where "q = (400 * d) div 146097"
  define r where "r = (400 * d) mod 146097"
  have qr: "400 * d = 146097 * q + r" "0 \<le> r" "r < 146097"
    by (simp_all add: q_def r_def)
  have k: "k \<le> 365" using assms(2) by (simp split: if_splits)
  have lo: "146097 * (y - 1) - 699 \<le> 400 * d"
    using daysBeforeYear_bounds(1) [of y] assms(1) by (simp add: d_def)
  have hi: "400 * d \<le> 146097 * (y - 1) + 396 + 146000"
    using daysBeforeYear_bounds(2) [of y] k by (simp add: d_def)
  have "146097 * (y - 2) < 146097 * (q + 1)" using qr lo by simp
  then have q1: "y - 2 < q + 1" by simp
  have "146097 * q < 146097 * (y + 1)" using qr hi by simp
  then have q2: "q < y + 1" by simp
  have q: "q = y - 2 \<or> q = y - 1 \<or> q = y"
    using q1 q2 by linarith
  have next_y: "daysBeforeYear (y + 1) = daysBeforeYear y + 365 + (if isLeap y then 1 else 0)"
    by (rule daysBeforeYear_Suc)
  have prev_y: "daysBeforeYear y = daysBeforeYear (y - 1) + 365 + (if isLeap (y - 1) then 1 else 0)"
    using daysBeforeYear_Suc [of "y - 1"] by simp
  have a: "daysBeforeYear y \<le> d" using assms(1) by (simp add: d_def)
  have b: "d < daysBeforeYear (y + 1)" using assms(2) next_y by (simp add: d_def)
  from q consider "q = y - 2" | "q = y - 1" | "q = y" by blast
  then have "yearOfDays d = y"
  proof cases
    case 1
    then have y0: "q + 1 = y - 1" by simp
    have "\<not> d < daysBeforeYear (y - 1)" using a prev_y by (simp split: if_splits)
    then show ?thesis
      using a unfolding yearOfDays_def q_def [symmetric] Let_def y0 by simp
  next
    case 2
    then have y0: "q + 1 = y" by simp
    show ?thesis
      using a b unfolding yearOfDays_def q_def [symmetric] Let_def y0 by simp
  next
    case 3
    then have y0: "q + 1 = y + 1" by simp
    show ?thesis
      using b unfolding yearOfDays_def q_def [symmetric] Let_def y0 by simp
  qed
  then show ?thesis by (simp add: d_def)
qed
lemma month_cases:
  assumes "1 \<le> m" "m \<le> (12::int)"
  shows "m = 1 \<or> m = 2 \<or> m = 3 \<or> m = 4 \<or> m = 5 \<or> m = 6 \<or> m = 7 \<or> m = 8 \<or> m = 9 \<or> m = 10
         \<or> m = 11 \<or> m = 12"
  using assms by presburger

lemma daysBefore_simps:
  "daysBefore 0 = 0" "daysBefore 1 = 31" "daysBefore 2 = 59" "daysBefore 3 = 90"
  "daysBefore 4 = 120" "daysBefore 5 = 151" "daysBefore 6 = 181" "daysBefore 7 = 212"
  "daysBefore 8 = 243" "daysBefore 9 = 273" "daysBefore 10 = 304" "daysBefore 11 = 334"
  "daysBefore 12 = 365"
  by (simp_all add: daysBefore_def)

lemma time_Date_in_range:
  assumes "1 \<le> m" "m \<le> 12"
  shows "time_Date y m d h mi s =
         (daysBeforeYear y - unixEpochDays + monthStartDay y m + (d - 1)) * 86400
         + h * 3600 + mi * 60 + s"
proof -
  have "(m - 1) div 12 = 0" "(m - 1) mod 12 = m - 1"
    using assms by simp_all
  then show ?thesis
    by (simp add: time_Date_def Let_def monthStartDay_def)
qed

lemma monthStartDay_range:
  assumes "1 \<le> m" "m \<le> 12"
  shows "0 \<le> monthStartDay y m" "monthStartDay y m < 365"
  using month_cases [OF assms]
  by (auto simp add: monthStartDay_def daysBefore_simps)

lemma monthOfYday_start:
  assumes "1 \<le> m" "m \<le> 12"
  shows "monthOfYday (isLeap y) (monthStartDay y m) = m"
  using month_cases [OF assms]
  by (auto simp add: monthStartDay_def monthOfYday_def daysBefore_simps Let_def)

lemma absDays_month_start:
  assumes "1 \<le> m" "m \<le> 12"
  shows "absDays (time_Date y m 1 0 0 0) = daysBeforeYear y + monthStartDay y m"
  by (simp add: time_Date_in_range [OF assms] absDays_def)

lemma Year_month_start:
  assumes "1 \<le> m" "m \<le> 12"
  shows "Year (time_Date y m 1 0 0 0) = y"
  unfolding Year_def absDays_month_start [OF assms]
  using monthStartDay_range [OF assms, of y]
  by (intro yearOfDays_in_year) simp_all

lemma Month_month_start:
  assumes "1 \<le> m" "m \<le> 12"
  shows "Month (time_Date y m 1 0 0 0) = m"
proof -
  have "yearOfDays (daysBeforeYear y + monthStartDay y m) = y"
    using monthStartDay_range [OF assms, of y]
    by (intro yearOfDays_in_year) simp_all
  then show ?thesis
    unfolding Month_def absDays_month_start [OF assms] Let_def
    by (simp add: monthOfYday_start [OF assms])
qed

lemma time_Date_month_end:
  assumes "1 \<le> m" "m \<le> 12"
  shows "time_Date y (m + 1) 0 23 59 59 = time_Date y m (daysIn m y) 23 59 59"
proof (cases "m = 12")
  case True
  have "time_Date y 13 0 23 59 59 =
        (daysBeforeYear (y + 1) - unixEpochDays - 1) * 86400 + 23 * 3600 + 59 * 60 + 59"
    by (simp add: time_Date_def Let_def daysBefore_simps)
  also have "\<dots> = time_Date y 12 (daysIn 12 y) 23 59 59"
    by (simp add: time_Date_def Let_def daysBefore_simps daysIn_def daysBeforeYear_Suc)
  finally show ?thesis using True by simp
next
  case False
  then have m: "1 \<le> m" "m \<le> 11" "1 \<le> m + 1" "m + 1 \<le> 12" using assms by simp_all
  have c: "m = 1 \<or> m = 2 \<or> m = 3 \<or> m = 4 \<or> m = 5 \<or> m = 6 \<or> m = 7 \<or> m = 8 \<or> m = 9 \<or> m = 10
         \<or> m = 11" using m(1,2) by presburger
  have "monthStartDay y (m + 1) = monthStartDay y m + daysIn m y"
    using c by (auto simp add: monthStartDay_def daysIn_def daysBefore_simps)
  then show ?thesis
    unfolding time_Date_in_range [OF m(3,4)] time_Date_in_range [OF assms]
    by simp
qed

section \<open>Facts about parsing and the repository\<close>

lemma parse_01_2006_month:
  assumes "parse_01_2006 v = Some (y, m)"
  shows "1 \<le> m" "m \<le> 12"
  using assms
  by (auto simp add: parse_01_2006_def Let_def split: list.splits if_splits)

lemma parseMonthYear_Some:
  assumes "parse_01_2006 v = Some (y, m)"
  shows "parseMonthYear v = Inr (time_Date y m 1 0 0 0)"
  using assms by (simp add: parseMonthYear_def)

lemma exec_stmt_rows: "rows (snd (exec_stmt db)) = rows db"
  by (simp add: exec_stmt_def split: list.splits)

lemma exec_stmt_ok:
  assumes "fst (exec_stmt db) = None"
  shows "\<exists>db'. exec_stmt db = (None, db') \<and> rows db' = rows db"
  using assms exec_stmt_rows [of db] by (cases "exec_stmt db") simp

lemma end_clause:
  "(case EndDate r of None \<Rightarrow> True | Some e \<Rightarrow> e \<ge> wStart)
   = (EndDate r = None \<or> wStart \<le> the (EndDate r))"
  by (cases "EndDate r") simp_all

lemma filter_matches:
  "(case serviceName of None \<Rightarrow> q3 | Some n \<Rightarrow> filter (\<lambda>r. ServiceName r = n) q3) =
     filter (matches wStart wEnd userID serviceName) xs"
  if "q3 = (case userID of None \<Rightarrow> q2 | Some u \<Rightarrow> filter (\<lambda>r. UserID r = u) q2)"
     "q2 = filter (\<lambda>r. case EndDate r of None \<Rightarrow> True | Some e \<Rightarrow> e \<ge> wStart) q1"
     "q1 = filter (\<lambda>r. StartDate r \<le> wEnd) xs"
  unfolding that end_clause
  by (cases userID; cases serviceName)
     (auto simp add: matches_def intro!: filter_cong)

lemma repo_Aggregate_ok:
  assumes "fst (exec_stmt db) = None"
  shows "fst (repo_Aggregate wStart wEnd userID serviceName db) =
         Inr (sum_list (map Price (filter (matches wStart wEnd userID serviceName) (rows db))))"
proof -
  obtain db' where e: "exec_stmt db = (None, db')" and r: "rows db' = rows db"
    using exec_stmt_ok [OF assms] by blast
  show ?thesis
    unfolding repo_Aggregate_def e Let_def
    by (simp add: r filter_matches [OF refl refl refl])
qed


lemma service_Aggregate_parsed:
  assumes "parse_01_2006 startDateStr = Some (y1, m1)"
      and "parse_01_2006 endDateStr = Some (y2, m2)"
  shows "service_Aggregate startDateStr endDateStr userID serviceName db =
         (case repo_Aggregate (windowStart y1 m1) (windowEnd y2 m2) userID serviceName db of
            (Inl err, db') \<Rightarrow> (Inl err, db')
          | (Inr total', db') \<Rightarrow> (Inr total', db'))"
proof -
  note m1 = parse_01_2006_month [OF assms(1)]
  note m2 = parse_01_2006_month [OF assms(2)]
  have s: "time_Date (Year (time_Date y1 m1 1 0 0 0)) (Month (time_Date y1 m1 1 0 0 0)) 1 0 0 0
           = windowStart y1 m1"
    by (simp add: Year_month_start [OF m1] Month_month_start [OF m1] windowStart_def)
  have e: "time_Date (Year (time_Date y2 m2 1 0 0 0)) (Month (time_Date y2 m2 1 0 0 0) + 1) 0 23 59 59
           = windowEnd y2 m2"
    by (simp add: Year_month_start [OF m2] Month_month_start [OF m2] windowEnd_def
        time_Date_month_end [OF m2])
  show ?thesis
    unfolding service_Aggregate_def parseMonthYear_Some [OF assms(1)]
      parseMonthYear_Some [OF assms(2)] Let_def
    by (simp only: sum.case s e)
qed


lemma repo_Aggregate_error:
  assumes "fst (repo_Aggregate wStart wEnd userID serviceName db) = Inl err"
  shows "kind_of err = PersistenceError"
  using assms
  by (auto simp add: repo_Aggregate_def Let_def split: prod.splits option.splits)

lemma repo_Create_cases:
  obtains (fail) msg db' where "exec_stmt db = (Some msg, db')"
      "repo_Create sub db = (Some (DriverError msg), db')" "rows db' = rows db"
  | (ok) db' where "exec_stmt db = (None, db')"
      "repo_Create sub db = (None, db'\<lparr>rows := rows db @ [sub]\<rparr>)" "rows db' = rows db"
proof (cases "exec_stmt db")
  case (Pair f db')
  have r: "rows db' = rows db" using exec_stmt_rows [of db] Pair by simp
  show ?thesis
  proof (cases f)
    case None
    then show ?thesis using Pair r ok by (simp add: repo_Create_def)
  next
    case (Some msg)
    then show ?thesis using Pair r fail by (simp add: repo_Create_def)
  qed
qed

lemma service_Create_checked:
  assumes "parseMonthYear startDateStr = Inr startDate"
      and "endDateStr = [] \<or> parseMonthYear endDateStr = Inr endDate"
  shows "service_Create subID serviceName price userID startDateStr endDateStr db =
         (if endDateStr \<noteq> [] \<and> endDate < startDate then (Inl ErrEndBeforeStart, db)
          else
            (let sub = \<lparr>ID = subID, ServiceName = serviceName, Price = price, UserID = userID,
                        StartDate = startDate,
                        EndDate = (if endDateStr = [] then None else Some endDate)\<rparr>
             in case repo_Create sub db of
                  (Some err, db') \<Rightarrow> (Inl err, db')
                | (None, db') \<Rightarrow> (Inr sub, db')))"
  using assms by (auto simp add: service_Create_def Let_def)

lemma repo_GetByID_cases:
  obtains (fail) msg db' where "exec_stmt db = (Some msg, db')"
      "repo_GetByID id' db = (Inl (DriverError msg), db')" "rows db' = rows db"
  | (absent) db' where "exec_stmt db = (None, db')" "stored db id' = None"
      "repo_GetByID id' db = (Inl ErrRecordNotFound, db')" "rows db' = rows db"
  | (found) db' sub where "exec_stmt db = (None, db')" "stored db id' = Some sub"
      "repo_GetByID id' db = (Inr sub, db')" "rows db' = rows db"
proof (cases "exec_stmt db")
  case (Pair f db')
  have r: "rows db' = rows db" using exec_stmt_rows [of db] Pair by simp
  show ?thesis
  proof (cases f)
    case (Some msg)
    then show ?thesis using Pair r fail by (simp add: repo_GetByID_def)
  next
    case None
    show ?thesis
    proof (cases "stored db id'")
      case n: None
      then show ?thesis using Pair None r absent by (simp add: repo_GetByID_def stored_def)
    next
      case s: (Some sub)
      then show ?thesis using Pair None r found by (simp add: repo_GetByID_def stored_def)
    qed
  qed
qed

lemma stored_ID: "stored db id' = Some sub \<Longrightarrow> ID sub = id'"
  by (auto simp add: stored_def find_Some_iff)

lemma find_replace:
  assumes "find (\<lambda>r. ID r = i) xs = Some old" and "ID sub = i"
  shows "find (\<lambda>r. ID r = i) (map (\<lambda>r. if ID r = ID sub then sub else r) xs) = Some sub"
  using assms by (induction xs) (auto split: if_splits)

lemma find_list_ex:
  assumes "find P xs = Some x"
  shows "list_ex P xs"
  using assms by (induction xs) (auto split: if_splits)

lemma repo_Update_cases:
  assumes "stored db (ID sub) = Some old"
  obtains (fail) msg db' where "exec_stmt db = (Some msg, db')"
      "repo_Update sub db = (Some (DriverError msg), db')" "rows db' = rows db"
  | (ok) db' where "exec_stmt db = (None, db')"
      "repo_Update sub db =
         (None, db'\<lparr>rows := map (\<lambda>r. if ID r = ID sub then sub else r) (rows db)\<rparr>)"
      "rows db' = rows db"
proof (cases "exec_stmt db")
  case (Pair f db')
  have r: "rows db' = rows db" using exec_stmt_rows [of db] Pair by simp
  have e: "list_ex (\<lambda>r. ID r = ID sub) (rows db)"
    using assms unfolding stored_def by (rule find_list_ex)
  show ?thesis
  proof (cases f)
    case None
    then show ?thesis using Pair r e ok by (simp add: repo_Update_def)
  next
    case (Some msg)
    then show ?thesis using Pair r fail by (simp add: repo_Update_def)
  qed
qed

lemma service_Update_mutate:
  "service_Update id' serviceName price startDateStr endDateStr db =
     (case repo_GetByID id' db of
        (Inl err, db1) \<Rightarrow> (Inl err, db1)
      | (Inr sub, db1) \<Rightarrow>
          (case mutate sub serviceName price startDateStr endDateStr of
             Inl err \<Rightarrow> (Inl err, db1)
           | Inr sub' \<Rightarrow>
               (case repo_Update sub' db1 of
                  (Some err, db2) \<Rightarrow> (Inl err, db2)
                | (None, db2) \<Rightarrow> (Inr sub', db2))))"
  unfolding service_Update_def mutate_def Let_def
  by (auto split: prod.splits sum.splits)

lemma mutate_frame:
  assumes "mutate old serviceName price startDateStr endDateStr = Inr new"
  shows "ID new = ID old"
    and "UserID new = UserID old"
    and "serviceName = [] \<Longrightarrow> ServiceName new = ServiceName old"
    and "price \<le> 0 \<Longrightarrow> Price new = Price old"
    and "startDateStr = [] \<Longrightarrow> StartDate new = StartDate old"
    and "endDateStr = [] \<Longrightarrow> EndDate new = None"
    and "date_ordered new"
  using assms
  by (auto simp add: mutate_def Let_def date_ordered_def split: if_splits sum.splits)

lemma mutate_empty_end:
  assumes "startDateStr = [] \<or> parseMonthYear startDateStr = Inr startDate"
  shows "\<exists>new. mutate old serviceName price startDateStr [] = Inr new"
  using assms by (auto simp add: mutate_def Let_def)

lemma mutate_both_dates:
  assumes "startDateStr \<noteq> []" "endDateStr \<noteq> []"
      and "parseMonthYear startDateStr = Inr startDate"
      and "parseMonthYear endDateStr = Inr endDate"
  shows "mutate old serviceName price startDateStr endDateStr =
         (if endDate < startDate then Inl ErrEndBeforeStart
          else Inr ((if price > 0 then (if serviceName \<noteq> [] then old\<lparr>ServiceName := serviceName\<rparr>
                                        else old)\<lparr>Price := price\<rparr>
                     else (if serviceName \<noteq> [] then old\<lparr>ServiceName := serviceName\<rparr> else old))
                    \<lparr>StartDate := startDate, EndDate := Some endDate\<rparr>))"
  using assms by (simp add: mutate_def Let_def)

lemma stored_rows: "rows a = rows b \<Longrightarrow> stored a id' = stored b id'"
  by (simp add: stored_def)

text \<open>The outcomes of \<open>Update\<close> on a stored entity: the table is left as it was, or
  the mutated entity has replaced the stored one and is returned.\<close>

lemma service_Update_outcomes:
  assumes "stored db id' = Some old"
  obtains (unchanged) err where
      "fst (service_Update id' serviceName price startDateStr endDateStr db) = Inl err"
      "rows (snd (service_Update id' serviceName price startDateStr endDateStr db)) = rows db"
  | (saved) new where
      "mutate old serviceName price startDateStr endDateStr = Inr new"
      "fst (service_Update id' serviceName price startDateStr endDateStr db) = Inr new"
      "rows (snd (service_Update id' serviceName price startDateStr endDateStr db))
         = map (\<lambda>r. if ID r = ID new then new else r) (rows db)"
      "stored (snd (service_Update id' serviceName price startDateStr endDateStr db)) id' = Some new"
proof (cases rule: repo_GetByID_cases [of db id'])
  case (fail msg db')
  then show ?thesis using unchanged by (simp add: service_Update_mutate)
next
  case (absent db')
  then show ?thesis using assms by simp
next
  case (found db1 sub)
  then have sub: "sub = old" using assms by simp
  show ?thesis
  proof (cases "mutate old serviceName price startDateStr endDateStr")
    case (Inl err)
    then show ?thesis using found sub unchanged by (simp add: service_Update_mutate)
  next
    case (Inr new)
    have i: "ID new = id'"
      using mutate_frame(1) [OF Inr] stored_ID [OF assms] by simp
    have s1: "stored db1 (ID new) = Some old"
      using assms found(4) i by (simp add: stored_def)
    from s1 show ?thesis
    proof (cases rule: repo_Update_cases)
      case (fail msg db2)
      then show ?thesis
        using found sub Inr unchanged by (simp add: service_Update_mutate)
    next
      case (ok db2)
      have f: "find (\<lambda>r. ID r = id') (map (\<lambda>r. if ID r = ID new then new else r) (rows db))
               = Some new"
        using assms i unfolding stored_def by (intro find_replace) simp_all
      show ?thesis
        using found sub Inr ok f saved
        by (simp add: service_Update_mutate stored_def)
    qed
  qed
qed

lemma service_Update_saved:
  assumes "stored db id' = Some old"
      and "fst (exec_stmt db) = None"
      and "fst (exec_stmt (snd (exec_stmt db))) = None"
      and "mutate old serviceName price startDateStr endDateStr = Inr new"
  shows "fst (service_Update id' serviceName price startDateStr endDateStr db) = Inr new"
    and "stored (snd (service_Update id' serviceName price startDateStr endDateStr db)) id'
         = Some new"
proof -
  have "fst (service_Update id' serviceName price startDateStr endDateStr db) = Inr new
        \<and> stored (snd (service_Update id' serviceName price startDateStr endDateStr db)) id'
           = Some new"
  proof (cases rule: repo_GetByID_cases [of db id'])
    case (fail msg db')
    then show ?thesis using assms(2) by simp
  next
    case (absent db')
    then show ?thesis using assms(1) by simp
  next
    case (found db1 sub)
    then have sub: "sub = old" using assms(1) by simp
    have i: "ID new = id'"
      using mutate_frame(1) [OF assms(4)] stored_ID [OF assms(1)] by simp
    have s1: "stored db1 (ID new) = Some old"
      using assms(1) found(4) i by (simp add: stored_def)
    have e1: "fst (exec_stmt db1) = None" using assms(3) found(1) by simp
    from s1 show ?thesis
    proof (cases rule: repo_Update_cases)
      case (fail msg db2)
      then show ?thesis using e1 by simp
    next
      case (ok db2)
      have f: "find (\<lambda>r. ID r = id') (map (\<lambda>r. if ID r = ID new then new else r) (rows db))
               = Some new"
        using assms(1) i unfolding stored_def by (intro find_replace) simp_all
      show ?thesis
        using found sub assms(4) ok f
        by (simp add: service_Update_mutate stored_def)
    qed
  qed
  then show "fst (service_Update id' serviceName price startDateStr endDateStr db) = Inr new"
    and "stored (snd (service_Update id' serviceName price startDateStr endDateStr db)) id'
         = Some new"
    by simp_all
qed

lemma service_Create_rows:
  obtains (unchanged)
      "rows (snd (service_Create subID serviceName price userID startDateStr endDateStr db))
       = rows db"
  | (added) sub where "date_ordered sub"
      "rows (snd (service_Create subID serviceName price userID startDateStr endDateStr db))
       = rows db @ [sub]"
proof (cases "parseMonthYear startDateStr")
  case (Inl err)
  then show ?thesis using unchanged by (simp add: service_Create_def Let_def)
next
  case s: (Inr startDate)
  show ?thesis
  proof (cases "endDateStr = []")
    case True
    let ?sub = "\<lparr>ID = subID, ServiceName = serviceName, Price = price, UserID = userID,
                  StartDate = startDate, EndDate = None\<rparr>"
    have o: "date_ordered ?sub" by (simp add: date_ordered_def)
    show ?thesis
    proof (cases rule: repo_Create_cases [of db ?sub])
      case (fail msg db')
      then show ?thesis using s True unchanged by (simp add: service_Create_def Let_def)
    next
      case (ok db')
      then show ?thesis using s True added [OF o] by (simp add: service_Create_def Let_def)
    qed
  next
    case False
    show ?thesis
    proof (cases "parseMonthYear endDateStr")
      case (Inl err)
      then show ?thesis using s False unchanged by (simp add: service_Create_def Let_def)
    next
      case e: (Inr endDate)
      show ?thesis
      proof (cases "endDate < startDate")
        case True
        then show ?thesis using s e False unchanged by (simp add: service_Create_def Let_def)
      next
        case ge: False
        let ?sub = "\<lparr>ID = subID, ServiceName = serviceName, Price = price, UserID = userID,
                      StartDate = startDate, EndDate = Some endDate\<rparr>"
        have o: "date_ordered ?sub" using ge by (simp add: date_ordered_def)
        show ?thesis
        proof (cases rule: repo_Create_cases [of db ?sub])
          case (fail msg db')
          then show ?thesis using s e False ge unchanged by (simp add: service_Create_def Let_def)
        next
          case (ok db')
          then show ?thesis using s e False ge added [OF o] by (simp add: service_Create_def Let_def)
        qed
      qed
    qed
  qed
qed

lemma service_Update_rows:
  obtains (unchanged)
      "rows (snd (service_Update id' serviceName price startDateStr endDateStr db)) = rows db"
  | (replaced) new where "date_ordered new"
      "rows (snd (service_Update id' serviceName price startDateStr endDateStr db))
       = map (\<lambda>r. if ID r = ID new then new else r) (rows db)"
proof (cases "stored db id'")
  case None
  show ?thesis
  proof (cases rule: repo_GetByID_cases [of db id'])
    case (fail msg db')
    then show ?thesis using unchanged by (simp add: service_Update_mutate)
  next
    case (absent db')
    then show ?thesis using unchanged by (simp add: service_Update_mutate)
  next
    case (found db' sub)
    then show ?thesis using None by simp
  qed
next
  case (Some old)
  then show ?thesis
  proof (cases rule: service_Update_outcomes
      [where serviceName = serviceName and price = price and startDateStr = startDateStr
         and endDateStr = endDateStr])
    case (unchanged err)
    then show ?thesis using that(1) by simp
  next
    case (saved new)
    show ?thesis using that(2) [OF mutate_frame(7) [OF saved(1)] saved(3)] .
  qed
qed

lemma service_Delete_rows:
  "rows (snd (service_Delete id' db)) = rows db
   \<or> rows (snd (service_Delete id' db)) = filter (\<lambda>r. ID r \<noteq> id') (rows db)"
  using exec_stmt_rows [of db]
  by (cases "exec_stmt db")
     (auto simp add: service_Delete_def repo_Delete_def split: option.splits)

lemma service_GetByID_rows: "rows (snd (service_GetByID id' db)) = rows db"
  by (cases rule: repo_GetByID_cases [of db id']) (simp_all add: service_GetByID_def)

lemma service_List_rows: "rows (snd (service_List userID serviceName db)) = rows db"
  using exec_stmt_rows [of db]
  by (cases "exec_stmt db")
     (auto simp add: service_List_def repo_List_def Let_def split: option.splits)

lemma service_Aggregate_rows:
  "rows (snd (service_Aggregate startDateStr endDateStr userID serviceName db)) = rows db"
  using exec_stmt_rows [of db]
  by (cases "exec_stmt db")
     (auto simp add: service_Aggregate_def repo_Aggregate_def Let_def
        split: option.splits sum.splits)

lemma perform_date_ordered:
  assumes "list_all date_ordered (rows db)"
  shows "list_all date_ordered (rows (perform c db))"
proof (cases c)
  case (CallCreate subID serviceName price userID startDateStr endDateStr)
  show ?thesis
    unfolding CallCreate perform.simps
    by (cases rule: service_Create_rows
        [of subID serviceName price userID startDateStr endDateStr db])
       (use assms in simp_all)
next
  case (CallGetByID id')
  then show ?thesis using assms by (simp add: service_GetByID_rows)
next
  case (CallUpdate id' serviceName price startDateStr endDateStr)
  show ?thesis
    unfolding CallUpdate perform.simps
    by (cases rule: service_Update_rows [of id' serviceName price startDateStr endDateStr db])
       (use assms in \<open>auto simp add: list_all_iff\<close>)
next
  case (CallDelete id')
  then show ?thesis
    using assms service_Delete_rows [of id' db] by (auto simp add: list_all_iff)
next
  case (CallList userID serviceName)
  then show ?thesis using assms by (simp add: service_List_rows)
next
  case (CallAggregate startDateStr endDateStr userID serviceName)
  then show ?thesis using assms by (simp add: service_Aggregate_rows)
qed

lemma run_date_ordered:
  assumes "list_all date_ordered (rows db)"
  shows "list_all date_ordered (rows (run calls db))"
  using assms
proof (induction calls arbitrary: db)
  case Nil
  then show ?case by simp
next
  case (Cons c calls)
  then show ?case by (simp add: perform_date_ordered)
qed

lemma service_Create_result_ordered:
  assumes "fst (service_Create subID serviceName price userID startDateStr endDateStr db) = Inr sub"
  shows "date_ordered sub"
  using assms
  by (auto simp add: service_Create_def Let_def date_ordered_def
      split: sum.splits if_splits prod.splits option.splits)

lemma service_Update_result_ordered:
  assumes "fst (service_Update id' serviceName price startDateStr endDateStr db) = Inr sub"
  shows "date_ordered sub"
  using assms mutate_frame(7)
  by (auto simp add: service_Update_mutate split: sum.splits prod.splits option.splits)

lemma service_Delete_not_NotFound:
  assumes "fst (service_Delete id' db) = Some err"
  shows "kind_of err = PersistenceError" and "\<not> errors_Is err ErrRecordNotFound"
  using assms
  by (auto simp add: service_Delete_def repo_Delete_def split: prod.splits option.splits)

lemma handler_Delete_never_404:
  "status (fst (handler_Delete (subscriptionService subID) idParam db)) \<noteq> StatusNotFound"
proof (cases "uuid_Parse idParam")
  case (Pair id' perr)
  show ?thesis
  proof (cases perr)
    case (Some e)
    then show ?thesis
      using Pair by (simp add: handler_Delete_def StatusNotFound_def StatusBadRequest_def)
  next
    case None
    show ?thesis
    proof (cases "service_Delete id' db")
      case d: (Pair r db')
      show ?thesis
      proof (cases r)
        case n: None
        then show ?thesis
          using Pair None d
          by (simp add: handler_Delete_def subscriptionService_def StatusNotFound_def
              StatusNoContent_def)
      next
        case s: (Some err)
        then have "\<not> errors_Is err ErrRecordNotFound"
          using service_Delete_not_NotFound(2) [of id' db err] d by simp
        then show ?thesis
          using Pair None d s
          by (simp add: handler_Delete_def subscriptionService_def StatusNotFound_def
              StatusInternalServerError_def)
      qed
    qed
  qed
qed

lemma small_byte:
  assumes "k < 16"
  shows "(of_nat k :: 8 word) \<noteq> 255"
proof
  assume "of_nat k = (255 :: 8 word)"
  then have "unat (of_nat k :: 8 word) = unat (255 :: 8 word)" by simp
  then have "k mod 256 = 255" by (simp add: unat_of_nat)
  with assms show False by simp
qed

lemma xvalues_hex: "xvalues c \<noteq> 255 \<longleftrightarrow> isHex c"
proof -
  define n where "n = (of_char c :: nat)"
  have a: "(of_nat (n - 48) :: 8 word) \<noteq> 255" if "n \<le> 57"
    using that by (intro small_byte) simp
  have b: "(of_nat (n - 55) :: 8 word) \<noteq> 255" if "n \<le> 70"
    using that by (intro small_byte) simp
  have c: "(of_nat (n - 87) :: 8 word) \<noteq> 255" if "n \<le> 102"
    using that by (intro small_byte) simp
  show ?thesis
    unfolding xvalues_def isHex_def Let_def n_def [symmetric]
    using a b c by (simp del: of_nat_diff)
qed

lemma xtob_ok: "snd (xtob a b) \<longleftrightarrow> isHex a \<and> isHex b"
  by (simp add: xtob_def Let_def xvalues_hex)

lemma parse_pairs_ok:
  "snd (parse_pairs s xs i u) \<longleftrightarrow> list_all (\<lambda>x. isHex (s ! x) \<and> isHex (s ! (x + 1))) xs"
proof (induction xs arbitrary: i u)
  case Nil
  then show ?case by simp
next
  case (Cons x xs)
  show ?case
    using xtob_ok [of "s ! x" "s ! (x + 1)"] Cons.IH
    by (cases "xtob (s ! x) (s ! (x + 1))") auto
qed

lemma parse_raw_ok:
  "snd (parse_raw s ns u) \<longleftrightarrow> list_all (\<lambda>i. isHex (s ! (i * 2)) \<and> isHex (s ! (i * 2 + 1))) ns"
proof (induction ns arbitrary: u)
  case Nil
  then show ?case by simp
next
  case (Cons n ns)
  show ?case
    using xtob_ok [of "s ! (n * 2)" "s ! (n * 2 + 1)"] Cons.IH
    by (cases "xtob (s ! (n * 2)) (s ! (n * 2 + 1))") auto
qed

lemma upt_36: "[0 ..< 36] = [0, 1, 2, 3, 4, 5, 6, 7, 8, 9, 10, 11, 12, 13, 14, 15, 16, 17, 18, 19, 20, 21, 22, 23, 24, 25, 26, 27, 28, 29, 30, 31, 32, 33, 34, 35 :: nat]"
  by code_simp

lemma upt_16: "[0 ..< 16] = [0, 1, 2, 3, 4, 5, 6, 7, 8, 9, 10, 11, 12, 13, 14, 15 :: nat]"
  by code_simp

lemma upt_32: "[0 ..< 32] = [0, 1, 2, 3, 4, 5, 6, 7, 8, 9, 10, 11, 12, 13, 14, 15, 16, 17, 18, 19, 20, 21, 22, 23, 24, 25, 26, 27, 28, 29, 30, 31 :: nat]"
  by code_simp

lemma parse_result_None:
  "snd (if bad then (n, Some m)
        else (case parse_pairs s xs i u of
                (uuid, ok) \<Rightarrow> (uuid, if ok then None else Some m'))) = None
   \<longleftrightarrow> \<not> bad \<and> snd (parse_pairs s xs i u)"
  by (cases "parse_pairs s xs i u") auto

lemma parse_hyphenated_None:
  "snd (parse_hyphenated s) = None \<longleftrightarrow>
     \<not> (s ! 8 \<noteq> CHR ''-'' \<or> s ! 13 \<noteq> CHR ''-'' \<or> s ! 18 \<noteq> CHR ''-'' \<or> s ! 23 \<noteq> CHR ''-'')
     \<and> list_all (\<lambda>x. isHex (s ! x) \<and> isHex (s ! (x + 1)))
           [0, 2, 4, 6, 9, 11, 14, 16, 19, 21, 24, 26, 28, 30, 32, 34]"
  unfolding parse_hyphenated_def parse_result_None parse_pairs_ok ..


lemma hyphenated_take:
  assumes "36 \<le> length s"
  shows "hyphenated (take 36 s) \<longleftrightarrow>
         list_all (\<lambda>i. if i = 8 \<or> i = 13 \<or> i = 18 \<or> i = 23 then s ! i = CHR ''-''
                        else isHex (s ! i)) [0 ..< 36]"
proof -
  have l: "length (take 36 s) = 36" using assms by simp
  have "list_all (\<lambda>i. if i = 8 \<or> i = 13 \<or> i = 18 \<or> i = 23 then take 36 s ! i = CHR ''-''
                        else isHex (take 36 s ! i)) [0 ..< 36]
        = list_all (\<lambda>i. if i = 8 \<or> i = 13 \<or> i = 18 \<or> i = 23 then s ! i = CHR ''-''
                        else isHex (s ! i)) [0 ..< 36]"
    unfolding list_all_iff by (intro ball_cong refl) simp
  then show ?thesis
    unfolding hyphenated_def l by simp
qed


lemma parse_hyphenated_ok:
  assumes "36 \<le> length s"
  shows "snd (parse_hyphenated s) = None \<longleftrightarrow> hyphenated (take 36 s)"
  unfolding parse_hyphenated_None hyphenated_take [OF assms] upt_36
proof
  assume "\<not> (s ! 8 \<noteq> CHR ''-'' \<or> s ! 13 \<noteq> CHR ''-'' \<or> s ! 18 \<noteq> CHR ''-'' \<or> s ! 23 \<noteq> CHR ''-'')
     \<and> list_all (\<lambda>x. isHex (s ! x) \<and> isHex (s ! (x + 1)))
           [0, 2, 4, 6, 9, 11, 14, 16, 19, 21, 24, 26, 28, 30, 32, 34]"
  then show "list_all (\<lambda>i. if i = 8 \<or> i = 13 \<or> i = 18 \<or> i = 23 then s ! i = CHR ''-''
                        else isHex (s ! i))
       [0, 1, 2, 3, 4, 5, 6, 7, 8, 9, 10, 11, 12, 13, 14, 15, 16, 17, 18, 19, 20, 21, 22, 23,
        24, 25, 26, 27, 28, 29, 30, 31, 32, 33, 34, 35]"
    by simp
next
  assume "list_all (\<lambda>i. if i = 8 \<or> i = 13 \<or> i = 18 \<or> i = 23 then s ! i = CHR ''-''
                        else isHex (s ! i))
       [0, 1, 2, 3, 4, 5, 6, 7, 8, 9, 10, 11, 12, 13, 14, 15, 16, 17, 18, 19, 20, 21, 22, 23,
        24, 25, 26, 27, 28, 29, 30, 31, 32, 33, 34, 35]"
  then show "\<not> (s ! 8 \<noteq> CHR ''-'' \<or> s ! 13 \<noteq> CHR ''-'' \<or> s ! 18 \<noteq> CHR ''-'' \<or> s ! 23 \<noteq> CHR ''-'')
     \<and> list_all (\<lambda>x. isHex (s ! x) \<and> isHex (s ! (x + 1)))
           [0, 2, 4, 6, 9, 11, 14, 16, 19, 21, 24, 26, 28, 30, 32, 34]"
    by simp
qed


lemma raw_result_None:
  "snd (case r of (uuid, ok) \<Rightarrow> (uuid, if ok then None else Some m)) = None \<longleftrightarrow> snd r"
  by (cases r) auto

lemma all_hex_32:
  assumes "length s = 32"
  shows "list_all isHex s \<longleftrightarrow> list_all (\<lambda>i. isHex (s ! i)) [0 ..< 32]"
  using assms by (simp add: list_all_length)

lemma parse_raw_all_hex:
  assumes "length s = 32"
  shows "snd (parse_raw s [0 ..< 16] u) \<longleftrightarrow> list_all isHex s"
  unfolding parse_raw_ok all_hex_32 [OF assms] upt_16 upt_32
proof
  assume "list_all (\<lambda>i. isHex (s ! (i * 2)) \<and> isHex (s ! (i * 2 + 1)))
            [0, 1, 2, 3, 4, 5, 6, 7, 8, 9, 10, 11, 12, 13, 14, 15]"
  then show "list_all (\<lambda>i. isHex (s ! i))
       [0, 1, 2, 3, 4, 5, 6, 7, 8, 9, 10, 11, 12, 13, 14, 15, 16, 17, 18, 19, 20, 21, 22, 23,
        24, 25, 26, 27, 28, 29, 30, 31]"
    by simp
next
  assume "list_all (\<lambda>i. isHex (s ! i))
       [0, 1, 2, 3, 4, 5, 6, 7, 8, 9, 10, 11, 12, 13, 14, 15, 16, 17, 18, 19, 20, 21, 22, 23,
        24, 25, 26, 27, 28, 29, 30, 31]"
  then show "list_all (\<lambda>i. isHex (s ! (i * 2)) \<and> isHex (s ! (i * 2 + 1)))
            [0, 1, 2, 3, 4, 5, 6, 7, 8, 9, 10, 11, 12, 13, 14, 15]"
    by simp
qed

lemma hyphenated_length: "hyphenated s \<Longrightarrow> length s = 36"
  by (simp add: hyphenated_def)

text \<open>The texts that \<open>uuid.Parse\<close> accepts are the valid UUID texts and the wrapped
  ones.\<close>

lemma uuid_Parse_accepts:
  "snd (uuid_Parse s) = None \<longleftrightarrow> valid_uuid_text s \<or> wrapped_uuid_text s"
proof -
  consider (h) "length s = 36" | (u) "length s = 45" | (w) "length s = 38" | (r) "length s = 32"
    | (other) "length s \<noteq> 36" "length s \<noteq> 45" "length s \<noteq> 38" "length s \<noteq> 32"
    by blast
  then show ?thesis
  proof cases
    case h
    have "snd (uuid_Parse s) = None \<longleftrightarrow> hyphenated s"
      using h parse_hyphenated_ok [of s] by (simp add: uuid_Parse_def)
    then show ?thesis
      using h by (auto simp add: valid_uuid_text_def wrapped_uuid_text_def)
  next
    case u
    have d: "snd (parse_hyphenated (drop 9 s)) = None \<longleftrightarrow> hyphenated (drop 9 s)"
      using u parse_hyphenated_ok [of "drop 9 s"] by simp
    have "snd (uuid_Parse s) = None
          \<longleftrightarrow> map toLower (take 9 s) = ''urn:uuid:'' \<and> hyphenated (drop 9 s)"
      using u d by (simp add: uuid_Parse_def)
    then show ?thesis
      using u hyphenated_length [of s]
      by (auto simp add: valid_uuid_text_def wrapped_uuid_text_def)
  next
    case w
    have "snd (uuid_Parse s) = None \<longleftrightarrow> hyphenated (take 36 (drop 1 s))"
      using w parse_hyphenated_ok [of "drop 1 s"] by (simp add: uuid_Parse_def)
    then show ?thesis
      using w hyphenated_length [of s]
      by (auto simp add: valid_uuid_text_def wrapped_uuid_text_def)
  next
    case r
    have "snd (uuid_Parse s) = None \<longleftrightarrow> list_all isHex s"
      using r parse_raw_all_hex [OF r, of uuid_Nil]
      by (simp add: uuid_Parse_def raw_result_None)
    then show ?thesis
      using r hyphenated_length [of s]
      by (auto simp add: valid_uuid_text_def wrapped_uuid_text_def)
  next
    case other
    have "snd (uuid_Parse s) \<noteq> None"
      using other by (simp add: uuid_Parse_def)
    then show ?thesis
      using other hyphenated_length [of s]
      by (auto simp add: valid_uuid_text_def wrapped_uuid_text_def)
  qed
qed

section \<open>The claims\<close>

text \<open>
  Claim C1. For start and end texts that parse as \<open>MM-YYYY\<close>, and a query that the
  database runs, \<open>Aggregate\<close> returns the sum of \<open>price\<close> over exactly the stored
  subscriptions with \<open>start_date \<le> windowEnd\<close> and (\<open>end_date \<ge> windowStart\<close> or no
  end date) that pass the optional equality filters on \<open>user_id\<close> and
  \<open>service_name\<close>, where the window runs from 00:00:00 on the first day of the start
  month to 23:59:59 on the last day of the end month, in UTC; when no subscription
  matches, the result is 0 and not an error.
\<close>

theorem Aggregate_sums_window:
  assumes "parse_01_2006 startDateStr = Some (y1, m1)"
      and "parse_01_2006 endDateStr = Some (y2, m2)"
      and "fst (exec_stmt db) = None"
  shows "fst (service_Aggregate startDateStr endDateStr userID serviceName db) =
           Inr (sum_list (map Price
                  (filter (matches (windowStart y1 m1) (windowEnd y2 m2) userID serviceName)
                     (rows db))))
         \<and> (\<not> list_ex (matches (windowStart y1 m1) (windowEnd y2 m2) userID serviceName) (rows db)
              \<longrightarrow> fst (service_Aggregate startDateStr endDateStr userID serviceName db) = Inr 0)"
proof -
  let ?m = "matches (windowStart y1 m1) (windowEnd y2 m2) userID serviceName"
  have r: "fst (repo_Aggregate (windowStart y1 m1) (windowEnd y2 m2) userID serviceName db) =
           Inr (sum_list (map Price (filter ?m (rows db))))"
    by (rule repo_Aggregate_ok [OF assms(3)])
  have a: "fst (service_Aggregate startDateStr endDateStr userID serviceName db) =
           Inr (sum_list (map Price (filter ?m (rows db))))"
    unfolding service_Aggregate_parsed [OF assms(1,2)]
    using r by (auto split: prod.splits sum.splits)
  have "filter ?m (rows db) = []" if "\<not> list_ex ?m (rows db)"
    using that by (simp add: list_ex_iff filter_empty_conv)
  then show ?thesis using a by simp
qed

theorem Aggregate_sums_window_witness:
  "parse_01_2006 ''07-2025'' = Some (2025, 7)
   \<and> parse_01_2006 ''10-2025'' = Some (2025, 10)
   \<and> windowStart 2025 7 = 1751328000
   \<and> windowEnd 2025 10 = 1761955199
   \<and> fst (exec_stmt example_db) = None
   \<and> fst (service_Aggregate ''07-2025'' ''10-2025'' (Some example_user) None example_db)
       = Inr 1500
   \<and> fst (service_Aggregate ''07-2025'' ''10-2025'' (Some example_user) (Some ''Netflix'')
            example_db)
       = Inr 1000
   \<and> parse_01_2006 ''01-2025'' = Some (2025, 1)
   \<and> \<not> list_ex (matches (windowStart 2025 1) (windowEnd 2025 1) None None) (rows example_db)
   \<and> fst (service_Aggregate ''01-2025'' ''01-2025'' None None example_db) = Inr 0"
proof -
  have p: "parse_01_2006 ''07-2025'' = Some (2025, 7)" by code_simp
  have p': "parse_01_2006 ''10-2025'' = Some (2025, 10)" by code_simp
  have q: "parse_01_2006 ''01-2025'' = Some (2025, 1)" by code_simp
  have w: "windowStart 2025 7 = 1751328000" "windowEnd 2025 10 = 1761955199" by code_simp+
  have f: "fst (exec_stmt example_db) = None" by code_simp
  have v: "sum_list (map Price
             (filter (matches (windowStart 2025 7) (windowEnd 2025 10) (Some example_user) None)
                (rows example_db))) = 1500"
    by code_simp
  have v': "sum_list (map Price
             (filter (matches (windowStart 2025 7) (windowEnd 2025 10) (Some example_user)
                        (Some ''Netflix''))
                (rows example_db))) = 1000"
    by code_simp
  have n: "\<not> list_ex (matches (windowStart 2025 1) (windowEnd 2025 1) None None) (rows example_db)"
    by code_simp
  have a: "fst (service_Aggregate ''07-2025'' ''10-2025'' (Some example_user) None example_db)
           = Inr 1500"
    using Aggregate_sums_window [OF p p' f, of "Some example_user" None]
    unfolding v by (rule conjunct1)
  have a': "fst (service_Aggregate ''07-2025'' ''10-2025'' (Some example_user) (Some ''Netflix'')
                 example_db)
           = Inr 1000"
    using Aggregate_sums_window [OF p p' f, of "Some example_user" "Some ''Netflix''"]
    unfolding v' by (rule conjunct1)
  have b: "fst (service_Aggregate ''01-2025'' ''01-2025'' None None example_db) = Inr 0"
    using Aggregate_sums_window [OF q q f, of None None] n by blast
  show ?thesis
    using p p' q w f a a' b n by blast
qed

text \<open>
  Claim C9. For start and end texts that parse, \<open>Aggregate\<close> never returns an error
  of the kind \<open>InvalidDateRange\<close>, whatever the order of the two months: no ordering
  check is made between them, the only errors left are those of the query, and when
  the query runs a total is returned.
\<close>

theorem Aggregate_never_InvalidDateRange:
  assumes "parse_01_2006 startDateStr = Some (y1, m1)"
      and "parse_01_2006 endDateStr = Some (y2, m2)"
  shows "(\<forall>err. fst (service_Aggregate startDateStr endDateStr userID serviceName db) = Inl err
            \<longrightarrow> kind_of err \<noteq> InvalidDateRange)
         \<and> (fst (exec_stmt db) = None
              \<longrightarrow> (\<exists>total'. fst (service_Aggregate startDateStr endDateStr userID serviceName db)
                              = Inr total'))"
proof (intro conjI allI impI)
  fix err
  assume "fst (service_Aggregate startDateStr endDateStr userID serviceName db) = Inl err"
  then have "fst (repo_Aggregate (windowStart y1 m1) (windowEnd y2 m2) userID serviceName db)
             = Inl err"
    unfolding service_Aggregate_parsed [OF assms]
    by (auto split: prod.splits sum.splits)
  then have "kind_of err = PersistenceError" by (rule repo_Aggregate_error)
  then show "kind_of err \<noteq> InvalidDateRange" by simp
next
  assume "fst (exec_stmt db) = None"
  then have "fst (repo_Aggregate (windowStart y1 m1) (windowEnd y2 m2) userID serviceName db) =
             Inr (sum_list (map Price
               (filter (matches (windowStart y1 m1) (windowEnd y2 m2) userID serviceName) (rows db))))"
    by (rule repo_Aggregate_ok)
  then show "\<exists>total'. fst (service_Aggregate startDateStr endDateStr userID serviceName db)
                       = Inr total'"
    unfolding service_Aggregate_parsed [OF assms]
    by (auto split: prod.splits sum.splits)
qed


theorem Aggregate_never_InvalidDateRange_witness:
  "parse_01_2006 ''10-2025'' = Some (2025, 10)
   \<and> parse_01_2006 ''07-2025'' = Some (2025, 7)
   \<and> fst (exec_stmt example_db) = None
   \<and> (\<exists>total'. fst (service_Aggregate ''10-2025'' ''07-2025'' None None example_db) = Inr total')
   \<and> fst (service_Aggregate ''10-2025'' ''07-2025'' None None
             (example_db\<lparr>faults := [Some ''connection refused'']\<rparr>))
       = Inl (Wrapped ''aggregation query failed'' (DriverError ''connection refused''))
   \<and> kind_of (Wrapped ''aggregation query failed'' (DriverError ''connection refused''))
       \<noteq> InvalidDateRange"
proof -
  have p: "parse_01_2006 ''10-2025'' = Some (2025, 10)" by code_simp
  have q: "parse_01_2006 ''07-2025'' = Some (2025, 7)" by code_simp
  have f: "fst (exec_stmt example_db) = None" by code_simp
  have e: "fst (service_Aggregate ''10-2025'' ''07-2025'' None None
             (example_db\<lparr>faults := [Some ''connection refused'']\<rparr>))
       = Inl (Wrapped ''aggregation query failed'' (DriverError ''connection refused''))"
    by code_simp
  have a: "\<exists>total'. fst (service_Aggregate ''10-2025'' ''07-2025'' None None example_db)
                     = Inr total'"
    using Aggregate_never_InvalidDateRange [OF p q, of None None example_db] f by blast
  have b: "kind_of (Wrapped ''aggregation query failed'' (DriverError ''connection refused''))
           \<noteq> InvalidDateRange"
    using Aggregate_never_InvalidDateRange [OF p q, of None None
        "example_db\<lparr>faults := [Some ''connection refused'']\<rparr>"] e by blast
  show ?thesis using p q f a b e by blast
qed

text \<open>
  Claim C5. For a \<open>Create\<close> request whose start text parses and whose end text is
  empty or parses, \<open>Create\<close> returns an error of the kind \<open>InvalidDateRange\<close> exactly
  when the end text is not empty and the parsed end date is strictly before the
  parsed start date; otherwise, when the database runs the insert, it returns the new
  entity and the entity is the row added to the table.
\<close>

theorem Create_date_range:
  assumes "parseMonthYear startDateStr = Inr startDate"
      and "endDateStr = [] \<or> parseMonthYear endDateStr = Inr endDate"
  shows "((\<exists>err. fst (service_Create subID serviceName price userID startDateStr endDateStr db)
                   = Inl err \<and> kind_of err = InvalidDateRange)
          \<longleftrightarrow> (endDateStr \<noteq> [] \<and> endDate < startDate))
         \<and> (\<not> (endDateStr \<noteq> [] \<and> endDate < startDate) \<and> fst (exec_stmt db) = None
              \<longrightarrow> fst (service_Create subID serviceName price userID startDateStr endDateStr db)
                    = Inr \<lparr>ID = subID, ServiceName = serviceName, Price = price,
                           UserID = userID, StartDate = startDate,
                           EndDate = (if endDateStr = [] then None else Some endDate)\<rparr>
                  \<and> rows (snd (service_Create subID serviceName price userID startDateStr
                                  endDateStr db))
                    = rows db @ [\<lparr>ID = subID, ServiceName = serviceName, Price = price,
                           UserID = userID, StartDate = startDate,
                           EndDate = (if endDateStr = [] then None else Some endDate)\<rparr>])"
proof (cases "endDateStr \<noteq> [] \<and> endDate < startDate")
  case True
  then show ?thesis
    by (simp add: service_Create_checked [OF assms])
next
  case False
  let ?sub = "\<lparr>ID = subID, ServiceName = serviceName, Price = price, UserID = userID,
                StartDate = startDate,
                EndDate = (if endDateStr = [] then None else Some endDate)\<rparr>"
  have c: "service_Create subID serviceName price userID startDateStr endDateStr db =
           (case repo_Create ?sub db of
              (Some err, db') \<Rightarrow> (Inl err, db')
            | (None, db') \<Rightarrow> (Inr ?sub, db'))"
    using False by (auto simp add: service_Create_checked [OF assms] Let_def)
  show ?thesis
  proof (cases rule: repo_Create_cases [of db ?sub])
    case (fail msg db')
    then show ?thesis using False unfolding c by simp
  next
    case (ok db')
    then show ?thesis using False unfolding c by simp
  qed
qed


theorem Create_date_range_witness:
  "parseMonthYear ''07-2025'' = Inr (time_Date 2025 7 1 0 0 0)
   \<and> parseMonthYear ''06-2025'' = Inr (time_Date 2025 6 1 0 0 0)
   \<and> time_Date 2025 6 1 0 0 0 < time_Date 2025 7 1 0 0 0
   \<and> (\<exists>err. fst (service_Create example_id1 ''Netflix'' 1000 example_user ''07-2025'' ''06-2025''
                    \<lparr>rows = [], faults = []\<rparr>) = Inl err \<and> kind_of err = InvalidDateRange)
   \<and> fst (exec_stmt \<lparr>rows = [], faults = []\<rparr>) = None
   \<and> rows (snd (service_Create example_id1 ''Netflix'' 1000 example_user ''07-2025'' ''07-2025''
                   \<lparr>rows = [], faults = []\<rparr>))
       = [\<lparr>ID = example_id1, ServiceName = ''Netflix'', Price = 1000, UserID = example_user,
           StartDate = time_Date 2025 7 1 0 0 0, EndDate = Some (time_Date 2025 7 1 0 0 0)\<rparr>]
   \<and> rows (snd (service_Create example_id2 ''Spotify'' 500 example_user ''07-2025'' []
                   \<lparr>rows = [], faults = []\<rparr>))
       = [\<lparr>ID = example_id2, ServiceName = ''Spotify'', Price = 500, UserID = example_user,
           StartDate = time_Date 2025 7 1 0 0 0, EndDate = None\<rparr>]"
proof -
  have p: "parseMonthYear ''07-2025'' = Inr (time_Date 2025 7 1 0 0 0)" by code_simp
  have q: "parseMonthYear ''06-2025'' = Inr (time_Date 2025 6 1 0 0 0)" by code_simp
  have l: "time_Date 2025 6 1 0 0 0 < time_Date 2025 7 1 0 0 0" by code_simp
  have f: "fst (exec_stmt \<lparr>rows = [], faults = []\<rparr>) = None" by code_simp
  have a: "\<exists>err. fst (service_Create example_id1 ''Netflix'' 1000 example_user ''07-2025''
                 ''06-2025'' \<lparr>rows = [], faults = []\<rparr>) = Inl err \<and> kind_of err = InvalidDateRange"
    using Create_date_range [OF p disjI2 [OF q], of example_id1 "''Netflix''" 1000 example_user
        "\<lparr>rows = [], faults = []\<rparr>"] l
    by simp
  have b: "rows (snd (service_Create example_id1 ''Netflix'' 1000 example_user ''07-2025''
                   ''07-2025'' \<lparr>rows = [], faults = []\<rparr>))
       = [\<lparr>ID = example_id1, ServiceName = ''Netflix'', Price = 1000, UserID = example_user,
           StartDate = time_Date 2025 7 1 0 0 0, EndDate = Some (time_Date 2025 7 1 0 0 0)\<rparr>]"
    using Create_date_range [OF p disjI2 [OF p], of example_id1 "''Netflix''" 1000 example_user
        "\<lparr>rows = [], faults = []\<rparr>"] f
    by simp
  have c: "rows (snd (service_Create example_id2 ''Spotify'' 500 example_user ''07-2025'' []
                   \<lparr>rows = [], faults = []\<rparr>))
       = [\<lparr>ID = example_id2, ServiceName = ''Spotify'', Price = 500, UserID = example_user,
           StartDate = time_Date 2025 7 1 0 0 0, EndDate = None\<rparr>]"
    using Create_date_range [OF p disjI1 [OF refl], of example_id2 "''Spotify''" 500 example_user
        "\<lparr>rows = [], faults = []\<rparr>"] f
    by simp
  show ?thesis using p q l f a b c by blast
qed

text \<open>
  Claim C6. For a stored subscription and any \<open>Update\<close> request on it, whether the
  update succeeds or fails, the stored \<open>service_name\<close> is unchanged when the supplied
  service name is empty, the stored \<open>price\<close> is unchanged when the supplied price is
  zero or negative, and the stored \<open>start_date\<close> is unchanged when the supplied
  start-date text is empty.
\<close>

theorem Update_frame:
  assumes "stored db id' = Some old"
  shows "\<exists>new. stored (snd (service_Update id' serviceName price startDateStr endDateStr db)) id'
                 = Some new
           \<and> (serviceName = [] \<longrightarrow> ServiceName new = ServiceName old)
           \<and> (price \<le> 0 \<longrightarrow> Price new = Price old)
           \<and> (startDateStr = [] \<longrightarrow> StartDate new = StartDate old)"
  using assms
proof (cases rule: service_Update_outcomes
    [where serviceName = serviceName and price = price and startDateStr = startDateStr
       and endDateStr = endDateStr])
  case (unchanged err)
  have "stored (snd (service_Update id' serviceName price startDateStr endDateStr db)) id'
        = Some old"
    using unchanged(2) assms by (simp add: stored_def)
  then show ?thesis by simp
next
  case (saved new)
  show ?thesis
    using saved(4) mutate_frame(3,4,5) [OF saved(1)] by simp
qed


theorem Update_frame_witness:
  "stored example_db example_id1 = Some netflix
   \<and> (\<exists>new. stored (snd (service_Update example_id1 [] 0 [] ''12-2025'' example_db)) example_id1
               = Some new
         \<and> ServiceName new = ''Netflix'' \<and> Price new = 1000
         \<and> StartDate new = time_Date 2025 7 1 0 0 0)"
proof -
  have s: "stored example_db example_id1 = Some netflix" by code_simp
  have n: "ServiceName netflix = ''Netflix''" "Price netflix = 1000"
    "StartDate netflix = time_Date 2025 7 1 0 0 0"
    by (simp_all add: netflix_def)
  show ?thesis
    using Update_frame [OF s, of "[]" 0 "[]" "''12-2025''"] s n by simp
qed

text \<open>
  Claim C7. For a stored subscription that the lookup returns and an \<open>Update\<close>
  request with a non-empty start text and a non-empty end text that both parse, the
  range check compares the parsed end date with the start date just supplied, not
  with the stored one: \<open>Update\<close> fails with an error of the kind \<open>InvalidDateRange\<close>
  exactly when the parsed end date is before the parsed new start date.
\<close>

theorem Update_range_check_new_start:
  assumes "stored db id' = Some old"
      and "fst (exec_stmt db) = None"
      and "startDateStr \<noteq> []" and "endDateStr \<noteq> []"
      and "parseMonthYear startDateStr = Inr startDate"
      and "parseMonthYear endDateStr = Inr endDate"
  shows "(\<exists>err. fst (service_Update id' serviceName price startDateStr endDateStr db) = Inl err
                \<and> kind_of err = InvalidDateRange)
         \<longleftrightarrow> endDate < startDate"
proof (cases rule: repo_GetByID_cases [of db id'])
  case (fail msg db')
  then show ?thesis using assms(2) by simp
next
  case (absent db')
  then show ?thesis using assms(1) by simp
next
  case (found db1 sub)
  then have sub: "sub = old" using assms(1) by simp
  note m = mutate_both_dates [OF assms(3-6), of old serviceName price]
  show ?thesis
  proof (cases "endDate < startDate")
    case True
    then show ?thesis
      using found sub m by (simp add: service_Update_mutate)
  next
    case False
    then obtain new where new: "mutate old serviceName price startDateStr endDateStr = Inr new"
      using m by simp
    have i: "ID new = id'"
      using mutate_frame(1) [OF new] stored_ID [OF assms(1)] by simp
    have s1: "stored db1 (ID new) = Some old"
      using assms(1) found(4) i by (simp add: stored_def)
    from s1 show ?thesis
    proof (cases rule: repo_Update_cases)
      case (fail msg db2)
      then show ?thesis
        using found sub new False by (simp add: service_Update_mutate)
    next
      case (ok db2)
      then show ?thesis
        using found sub new False by (simp add: service_Update_mutate)
    qed
  qed
qed


theorem Update_range_check_new_start_witness:
  "stored example_db example_id1 = Some netflix
   \<and> StartDate netflix = time_Date 2025 7 1 0 0 0
   \<and> fst (exec_stmt example_db) = None
   \<and> parseMonthYear ''11-2025'' = Inr (time_Date 2025 11 1 0 0 0)
   \<and> parseMonthYear ''10-2025'' = Inr (time_Date 2025 10 1 0 0 0)
   \<and> time_Date 2025 10 1 0 0 0 < time_Date 2025 11 1 0 0 0
   \<and> \<not> time_Date 2025 10 1 0 0 0 < time_Date 2025 7 1 0 0 0
   \<and> (\<exists>err. fst (service_Update example_id1 [] 0 ''11-2025'' ''10-2025'' example_db) = Inl err
             \<and> kind_of err = InvalidDateRange)
   \<and> parseMonthYear ''05-2025'' = Inr (time_Date 2025 5 1 0 0 0)
   \<and> parseMonthYear ''06-2025'' = Inr (time_Date 2025 6 1 0 0 0)
   \<and> \<not> time_Date 2025 6 1 0 0 0 < time_Date 2025 5 1 0 0 0
   \<and> time_Date 2025 6 1 0 0 0 < time_Date 2025 7 1 0 0 0
   \<and> \<not> (\<exists>err. fst (service_Update example_id1 [] 0 ''05-2025'' ''06-2025'' example_db) = Inl err
               \<and> kind_of err = InvalidDateRange)"
proof -
  have s: "stored example_db example_id1 = Some netflix" by code_simp
  have t: "StartDate netflix = time_Date 2025 7 1 0 0 0" by (simp add: netflix_def)
  have f: "fst (exec_stmt example_db) = None" by code_simp
  have p11: "parseMonthYear ''11-2025'' = Inr (time_Date 2025 11 1 0 0 0)" by code_simp
  have p10: "parseMonthYear ''10-2025'' = Inr (time_Date 2025 10 1 0 0 0)" by code_simp
  have p05: "parseMonthYear ''05-2025'' = Inr (time_Date 2025 5 1 0 0 0)" by code_simp
  have p06: "parseMonthYear ''06-2025'' = Inr (time_Date 2025 6 1 0 0 0)" by code_simp
  have l1: "time_Date 2025 10 1 0 0 0 < time_Date 2025 11 1 0 0 0" by code_simp
  have l2: "\<not> time_Date 2025 10 1 0 0 0 < time_Date 2025 7 1 0 0 0" by code_simp
  have l3: "\<not> time_Date 2025 6 1 0 0 0 < time_Date 2025 5 1 0 0 0" by code_simp
  have l4: "time_Date 2025 6 1 0 0 0 < time_Date 2025 7 1 0 0 0" by code_simp
  have a: "\<exists>err. fst (service_Update example_id1 [] 0 ''11-2025'' ''10-2025'' example_db) = Inl err
             \<and> kind_of err = InvalidDateRange"
    using Update_range_check_new_start [OF s f _ _ p11 p10, of "[]" 0] l1 by simp
  have b: "\<not> (\<exists>err. fst (service_Update example_id1 [] 0 ''05-2025'' ''06-2025'' example_db) = Inl err
               \<and> kind_of err = InvalidDateRange)"
    using Update_range_check_new_start [OF s f _ _ p05 p06, of "[]" 0] l3 by simp
  show ?thesis
    using s t f p11 p10 p05 p06 l1 l2 l3 l4 a b by blast
qed

text \<open>
  Claim C2, as stated: for every stored subscription and every \<open>Update\<close> request whose
  end-date text is empty, \<open>Update\<close> sets the stored \<open>end_date\<close> to unset, whatever the
  other fields of the request. This fails when the request carries a start-date text
  that does not parse: \<open>Update\<close> validates the start date first and returns the error
  without saving, so the stored end date stays. On the example data, the request with
  the start text \<open>13-2025\<close> and an empty end text leaves the end date of the Netflix
  subscription at 10-2025.
\<close>

theorem Update_empty_end_counterexample:
  "stored example_db example_id1 = Some netflix
   \<and> EndDate netflix = Some (time_Date 2025 10 1 0 0 0)
   \<and> fst (service_Update example_id1 [] 0 ''13-2025'' [] example_db)
       = Inl (Wrapped ''invalid start_date'' (ParseError ''13-2025''))
   \<and> map_option EndDate
         (stored (snd (service_Update example_id1 [] 0 ''13-2025'' [] example_db)) example_id1)
       = Some (Some (time_Date 2025 10 1 0 0 0))"
proof -
  have a: "stored example_db example_id1 = Some netflix" by code_simp
  have b: "EndDate netflix = Some (time_Date 2025 10 1 0 0 0)" by (simp add: netflix_def)
  have c: "fst (service_Update example_id1 [] 0 ''13-2025'' [] example_db)
           = Inl (Wrapped ''invalid start_date'' (ParseError ''13-2025''))"
    by code_simp
  have d: "map_option EndDate
         (stored (snd (service_Update example_id1 [] 0 ''13-2025'' [] example_db)) example_id1)
       = Some (Some (time_Date 2025 10 1 0 0 0))"
    by code_simp
  show ?thesis using a b c d by blast
qed

text \<open>
  Claim C2, amended: for every stored subscription and every \<open>Update\<close> request whose
  end-date text is empty and whose start-date text is empty or parses, when the
  database runs the lookup and the save, \<open>Update\<close> succeeds and the stored entity has
  no end date, whatever its end date was before and whatever service name and price
  the request supplies.
\<close>

theorem Update_empty_end_clears:
  assumes "stored db id' = Some old"
      and "startDateStr = [] \<or> parseMonthYear startDateStr = Inr startDate"
      and "fst (exec_stmt db) = None"
      and "fst (exec_stmt (snd (exec_stmt db))) = None"
  shows "\<exists>new. fst (service_Update id' serviceName price startDateStr [] db) = Inr new
           \<and> stored (snd (service_Update id' serviceName price startDateStr [] db)) id' = Some new
           \<and> EndDate new = None"
proof -
  obtain new where new: "mutate old serviceName price startDateStr [] = Inr new"
    using mutate_empty_end [OF assms(2)] by blast
  have "EndDate new = None" using mutate_frame(6) [OF new] by simp
  then show ?thesis
    using service_Update_saved [OF assms(1,3,4) new] by simp
qed

theorem Update_empty_end_clears_witness:
  "stored example_db example_id1 = Some netflix
   \<and> EndDate netflix = Some (time_Date 2025 10 1 0 0 0)
   \<and> parseMonthYear ''08-2025'' = Inr (time_Date 2025 8 1 0 0 0)
   \<and> fst (exec_stmt example_db) = None
   \<and> fst (exec_stmt (snd (exec_stmt example_db))) = None
   \<and> (\<exists>new. fst (service_Update example_id1 ''Netflix HD'' 1200 ''08-2025'' [] example_db) = Inr new
         \<and> stored (snd (service_Update example_id1 ''Netflix HD'' 1200 ''08-2025'' [] example_db))
              example_id1 = Some new
         \<and> EndDate new = None)"
proof -
  have s: "stored example_db example_id1 = Some netflix" by code_simp
  have e: "EndDate netflix = Some (time_Date 2025 10 1 0 0 0)" by (simp add: netflix_def)
  have p: "parseMonthYear ''08-2025'' = Inr (time_Date 2025 8 1 0 0 0)" by code_simp
  have f: "fst (exec_stmt example_db) = None" by code_simp
  have g: "fst (exec_stmt (snd (exec_stmt example_db))) = None" by code_simp
  show ?thesis
    using Update_empty_end_clears [OF s disjI2 [OF p] f g, of "''Netflix HD''" 1200] s e p f g
    by blast
qed

text \<open>
  Claim C8. The entity that a successful \<open>Create\<close> or \<open>Update\<close> returns and stores has
  an end date that, when set, is not before its start date; and no call on the
  service breaks this for any stored row: it holds of every row after any run of
  calls on a table where it held before, so of every row of a table that started
  empty, whatever the driver did on the way.
\<close>

theorem stored_dates_ordered:
  "(\<forall>sub. fst (service_Create subID serviceName price userID startDateStr endDateStr db) = Inr sub
           \<longrightarrow> date_ordered sub)
   \<and> (\<forall>sub. fst (service_Update id' serviceName price startDateStr endDateStr db) = Inr sub
           \<longrightarrow> date_ordered sub)
   \<and> (list_all date_ordered (rows db) \<longrightarrow> list_all date_ordered (rows (run calls db)))
   \<and> list_all date_ordered (rows (run calls \<lparr>rows = [], faults = fs\<rparr>))"
proof (intro conjI allI impI)
  fix sub
  assume "fst (service_Create subID serviceName price userID startDateStr endDateStr db) = Inr sub"
  then show "date_ordered sub" by (rule service_Create_result_ordered)
next
  fix sub
  assume "fst (service_Update id' serviceName price startDateStr endDateStr db) = Inr sub"
  then show "date_ordered sub" by (rule service_Update_result_ordered)
next
  assume "list_all date_ordered (rows db)"
  then show "list_all date_ordered (rows (run calls db))" by (rule run_date_ordered)
next
  show "list_all date_ordered (rows (run calls \<lparr>rows = [], faults = fs\<rparr>))"
    by (rule run_date_ordered) simp
qed


theorem stored_dates_ordered_witness:
  "fst (service_Create example_id2 ''Spotify'' 500 example_user ''09-2025'' ''12-2025'' example_db)
     = Inr \<lparr>ID = example_id2, ServiceName = ''Spotify'', Price = 500, UserID = example_user,
            StartDate = time_Date 2025 9 1 0 0 0, EndDate = Some (time_Date 2025 12 1 0 0 0)\<rparr>
   \<and> date_ordered \<lparr>ID = example_id2, ServiceName = ''Spotify'', Price = 500,
            UserID = example_user, StartDate = time_Date 2025 9 1 0 0 0,
            EndDate = Some (time_Date 2025 12 1 0 0 0)\<rparr>
   \<and> fst (service_Update example_id1 [] 0 ''08-2025'' ''09-2025'' example_db)
     = Inr (netflix\<lparr>StartDate := time_Date 2025 8 1 0 0 0,
                    EndDate := Some (time_Date 2025 9 1 0 0 0)\<rparr>)
   \<and> date_ordered (netflix\<lparr>StartDate := time_Date 2025 8 1 0 0 0,
                    EndDate := Some (time_Date 2025 9 1 0 0 0)\<rparr>)
   \<and> list_all date_ordered (rows example_db)
   \<and> rows (run [CallUpdate example_id1 [] 0 ''08-2025'' ''09-2025'',
                 CallUpdate example_id2 [] 0 ''12-2025'' ''10-2025'',
                 CallDelete example_id2] example_db)
     = [netflix\<lparr>StartDate := time_Date 2025 8 1 0 0 0,
                 EndDate := Some (time_Date 2025 9 1 0 0 0)\<rparr>]
   \<and> list_all date_ordered
        (rows (run [CallUpdate example_id1 [] 0 ''08-2025'' ''09-2025'',
                    CallUpdate example_id2 [] 0 ''12-2025'' ''10-2025'',
                    CallDelete example_id2] example_db))"
proof -
  let ?calls = "[CallUpdate example_id1 [] 0 ''08-2025'' ''09-2025'',
                 CallUpdate example_id2 [] 0 ''12-2025'' ''10-2025'',
                 CallDelete example_id2]"
  have c: "fst (service_Create example_id2 ''Spotify'' 500 example_user ''09-2025'' ''12-2025''
             example_db)
     = Inr \<lparr>ID = example_id2, ServiceName = ''Spotify'', Price = 500, UserID = example_user,
            StartDate = time_Date 2025 9 1 0 0 0, EndDate = Some (time_Date 2025 12 1 0 0 0)\<rparr>"
    by code_simp
  have u: "fst (service_Update example_id1 [] 0 ''08-2025'' ''09-2025'' example_db)
     = Inr (netflix\<lparr>StartDate := time_Date 2025 8 1 0 0 0,
                    EndDate := Some (time_Date 2025 9 1 0 0 0)\<rparr>)"
    by code_simp
  have i: "list_all date_ordered (rows example_db)" by code_simp
  have r: "rows (run ?calls example_db)
     = [netflix\<lparr>StartDate := time_Date 2025 8 1 0 0 0,
                 EndDate := Some (time_Date 2025 9 1 0 0 0)\<rparr>]"
    by code_simp
  note t = stored_dates_ordered [of example_id2 "''Spotify''" 500 example_user "''09-2025''"
      "''12-2025''" example_db]
  note t' = stored_dates_ordered [of _ "[]" 0 _ "''08-2025''" "''09-2025''" example_db
      example_id1 ?calls]
  have dc: "date_ordered \<lparr>ID = example_id2, ServiceName = ''Spotify'', Price = 500,
            UserID = example_user, StartDate = time_Date 2025 9 1 0 0 0,
            EndDate = Some (time_Date 2025 12 1 0 0 0)\<rparr>"
    using t c by blast
  have du: "date_ordered (netflix\<lparr>StartDate := time_Date 2025 8 1 0 0 0,
                    EndDate := Some (time_Date 2025 9 1 0 0 0)\<rparr>)"
    using t' u by blast
  have dr: "list_all date_ordered (rows (run ?calls example_db))"
    using t' i by blast
  show ?thesis using c u i r dc du dr by blast
qed

text \<open>
  Claim C4 says that \<open>Delete\<close> on an identifier with no stored subscription returns a
  \<open>NotFound\<close> error and that the handler answers 404. The handler has the branch for
  it (\<open>errors.Is(err, gorm.ErrRecordNotFound)\<close>, logged as an attempt to delete a
  subscription that does not exist), but the repository returns only the error of
  \<open>db.Delete\<close>, which is nil when no row matches. On the example data, deleting an
  absent identifier returns no error, leaves the table as it was and is answered
  with 204.
\<close>

theorem Delete_absent_succeeds_silently:
  "stored example_db example_absent = None
   \<and> uuid_Parse example_absent_text = (example_absent, None)
   \<and> service_Delete example_absent example_db = (None, example_db)
   \<and> handler_Delete (subscriptionService example_id1) example_absent_text example_db
       = (\<lparr>status = 204, payload = NoBody\<rparr>, example_db)"
proof -
  have a: "stored example_db example_absent = None" by code_simp
  have b: "uuid_Parse example_absent_text = (example_absent, None)" by code_simp
  have c: "service_Delete example_absent example_db = (None, example_db)" by code_simp
  have d: "handler_Delete (subscriptionService example_id1) example_absent_text example_db
       = (\<lparr>status = 204, payload = NoBody\<rparr>, example_db)"
    by code_simp
  show ?thesis using a b c d by blast
qed

text \<open>
  Claim C3 gives the mapping from error kinds to status codes: validation failures
  400, \<open>NotFound\<close> 404, persistence failures 500. \<open>GetByID\<close> maps so, but the handlers
  of \<open>Update\<close> and \<open>Create\<close> answer 400 to every error of the service and the handler
  of \<open>Aggregate\<close> answers 500 to every error. On the example data: an update of an
  absent identifier gets \<open>NotFound\<close> from the service and is answered with 400, where
  the same error from \<open>GetByID\<close> is answered with 404; an aggregation with the start
  text \<open>2025-07\<close> gets \<open>InvalidDate\<close> and is answered with 500; a creation that the
  database refuses gets a persistence error and is answered with 400.
\<close>

theorem status_mapping_diverges:
  "kind_of ErrRecordNotFound = NotFound
   \<and> handler_GetByID (subscriptionService example_id1) example_absent_text example_db
       = (\<lparr>status = 404, payload = ErrorText ''subscription not found''\<rparr>, example_db)
   \<and> handler_Update (subscriptionService example_id1) example_absent_text
         (Inr \<lparr>u_ServiceName = [], u_Price = 1200, u_StartDate = [], u_EndDate = ''07-2025''\<rparr>)
         example_db
       = (\<lparr>status = 400, payload = ErrorOf ErrRecordNotFound\<rparr>, example_db)
   \<and> kind_of (Wrapped ''invalid start_date'' (ParseError ''2025-07'')) = InvalidDate
   \<and> handler_Aggregate (subscriptionService example_id1)
         (Inr \<lparr>a_StartDate = ''2025-07'', a_EndDate = ''10-2025'', a_UserID = None,
               a_ServiceName = None\<rparr>)
         example_db
       = (\<lparr>status = 500,
            payload = ErrorOf (Wrapped ''invalid start_date'' (ParseError ''2025-07''))\<rparr>,
          example_db)
   \<and> kind_of (DriverError ''connection refused'') = PersistenceError
   \<and> fst (handler_Create (subscriptionService example_absent)
         (Inr \<lparr>c_ServiceName = ''Yandex Plus'', c_Price = 400, c_UserID = example_user,
               c_StartDate = ''07-2025'', c_EndDate = []\<rparr>)
         (example_db\<lparr>faults := [Some ''connection refused'']\<rparr>))
       = \<lparr>status = 400, payload = ErrorOf (DriverError ''connection refused'')\<rparr>"
proof -
  have a: "handler_GetByID (subscriptionService example_id1) example_absent_text example_db
       = (\<lparr>status = 404, payload = ErrorText ''subscription not found''\<rparr>, example_db)"
    by code_simp
  have b: "handler_Update (subscriptionService example_id1) example_absent_text
         (Inr \<lparr>u_ServiceName = [], u_Price = 1200, u_StartDate = [], u_EndDate = ''07-2025''\<rparr>)
         example_db
       = (\<lparr>status = 400, payload = ErrorOf ErrRecordNotFound\<rparr>, example_db)"
    by code_simp
  have c: "handler_Aggregate (subscriptionService example_id1)
         (Inr \<lparr>a_StartDate = ''2025-07'', a_EndDate = ''10-2025'', a_UserID = None,
               a_ServiceName = None\<rparr>)
         example_db
       = (\<lparr>status = 500,
            payload = ErrorOf (Wrapped ''invalid start_date'' (ParseError ''2025-07''))\<rparr>,
          example_db)"
    by code_simp
  have d: "fst (handler_Create (subscriptionService example_absent)
         (Inr \<lparr>c_ServiceName = ''Yandex Plus'', c_Price = 400, c_UserID = example_user,
               c_StartDate = ''07-2025'', c_EndDate = []\<rparr>)
         (example_db\<lparr>faults := [Some ''connection refused'']\<rparr>))
       = \<lparr>status = 400, payload = ErrorOf (DriverError ''connection refused'')\<rparr>"
    by code_simp
  show ?thesis using a b c d by simp
qed


text \<open>
  Claim C10, as stated: every request with a malformed identifier (a path id or a
  query parameter \<open>user_id\<close> that is not a valid UUID) is rejected with 400 before any
  domain operation is invoked. This fails in two places. \<open>List\<close> only logs a warning
  when \<open>user_id\<close> does not parse and goes on to call the service: on the example
  data, \<open>user_id=not-a-uuid\<close> is answered with 200 and every stored subscription.
  And the path handlers take what \<open>uuid.Parse\<close> accepts, which is more than the valid
  texts: the path id \<open>x00000000-0000-0000-0000-000000000002y\<close> is not a valid UUID, and
  \<open>Delete\<close> on it removes the Spotify subscription and answers 204.
\<close>

theorem malformed_id_counterexample:
  "\<not> valid_uuid_text ''not-a-uuid''
   \<and> handler_List (subscriptionService example_id1) ''not-a-uuid'' [] example_db
       = (\<lparr>status = 200, payload = Entities [netflix, spotify]\<rparr>, example_db)
   \<and> \<not> valid_uuid_text ''x00000000-0000-0000-0000-000000000002y''
   \<and> handler_Delete (subscriptionService example_id1)
         ''x00000000-0000-0000-0000-000000000002y'' example_db
       = (\<lparr>status = 204, payload = NoBody\<rparr>, \<lparr>rows = [netflix], faults = []\<rparr>)"
proof -
  have a: "\<not> valid_uuid_text ''not-a-uuid''" by code_simp
  have b: "handler_List (subscriptionService example_id1) ''not-a-uuid'' [] example_db
       = (\<lparr>status = 200, payload = Entities [netflix, spotify]\<rparr>, example_db)"
    by code_simp
  have c: "\<not> valid_uuid_text ''x00000000-0000-0000-0000-000000000002y''" by code_simp
  have d: "handler_Delete (subscriptionService example_id1)
         ''x00000000-0000-0000-0000-000000000002y'' example_db
       = (\<lparr>status = 204, payload = NoBody\<rparr>, \<lparr>rows = [netflix], faults = []\<rparr>)"
    by code_simp
  show ?thesis using a b c d by blast
qed

text \<open>
  Claim C10, amended: every request whose path id (to \<open>GetByID\<close>, \<open>Update\<close> or
  \<open>Delete\<close>) is neither a valid UUID text nor a text of 38 characters whose middle 36
  characters are a hyphenated UUID is rejected with 400 before any domain operation
  is invoked: the answer is the same and the state untouched whatever the service
  is. \<open>List\<close> rejects no \<open>user_id\<close>: for every text of the parameter it calls the
  service's \<open>List\<close> with some identifier and answers 200 or 500.
\<close>

theorem malformed_path_id_rejected:
  assumes "\<not> valid_uuid_text idParam" and "\<not> wrapped_uuid_text idParam"
  shows "handler_GetByID service idParam s
           = (\<lparr>status = 400, payload = ErrorText ''invalid subscription ID''\<rparr>, s)
         \<and> handler_Update service idParam json s
           = (\<lparr>status = 400, payload = ErrorText ''invalid subscription ID''\<rparr>, s)
         \<and> handler_Delete service idParam s
           = (\<lparr>status = 400, payload = ErrorText ''invalid subscription ID''\<rparr>, s)
         \<and> (\<exists>userID. handler_List service userIDParam serviceName s
               = (case svcList service userID serviceName s of
                    (Inl err, s') \<Rightarrow>
                      (\<lparr>status = 500, payload = ErrorText ''failed to list subscriptions''\<rparr>,
                       s')
                  | (Inr subs, s') \<Rightarrow> (\<lparr>status = 200, payload = Entities subs\<rparr>, s')))"
proof -
  have "snd (uuid_Parse idParam) \<noteq> None"
    using assms by (simp add: uuid_Parse_accepts)
  then obtain u e where p: "uuid_Parse idParam = (u, Some e)"
    by (cases "uuid_Parse idParam") auto
  obtain v q where l: "uuid_Parse userIDParam = (v, q)"
    by (cases "uuid_Parse userIDParam")
  have g: "handler_GetByID service idParam s
           = (\<lparr>status = 400, payload = ErrorText ''invalid subscription ID''\<rparr>, s)"
    unfolding handler_GetByID_def p StatusBadRequest_def by simp
  have u: "handler_Update service idParam json s
           = (\<lparr>status = 400, payload = ErrorText ''invalid subscription ID''\<rparr>, s)"
    unfolding handler_Update_def p StatusBadRequest_def by simp
  have d: "handler_Delete service idParam s
           = (\<lparr>status = 400, payload = ErrorText ''invalid subscription ID''\<rparr>, s)"
    unfolding handler_Delete_def p StatusBadRequest_def by simp
  have "handler_List service userIDParam serviceName s
               = (case svcList service v serviceName s of
                    (Inl err, s') \<Rightarrow>
                      (\<lparr>status = 500, payload = ErrorText ''failed to list subscriptions''\<rparr>,
                       s')
                  | (Inr subs, s') \<Rightarrow> (\<lparr>status = 200, payload = Entities subs\<rparr>, s'))"
    unfolding handler_List_def l StatusInternalServerError_def StatusOK_def by simp
  then show ?thesis using g u d by blast
qed

theorem malformed_path_id_rejected_witness:
  "\<not> valid_uuid_text ''not-a-uuid'' \<and> \<not> wrapped_uuid_text ''not-a-uuid''
   \<and> handler_GetByID (subscriptionService example_id1) ''not-a-uuid'' example_db
       = (\<lparr>status = 400, payload = ErrorText ''invalid subscription ID''\<rparr>, example_db)
   \<and> \<not> valid_uuid_text ''00000000-0000-0000-0000-00000000000g''
   \<and> \<not> wrapped_uuid_text ''00000000-0000-0000-0000-00000000000g''
   \<and> handler_Update (subscriptionService example_id1) ''00000000-0000-0000-0000-00000000000g''
         (Inr \<lparr>u_ServiceName = [], u_Price = 1200, u_StartDate = [], u_EndDate = []\<rparr>)
         example_db
       = (\<lparr>status = 400, payload = ErrorText ''invalid subscription ID''\<rparr>, example_db)
   \<and> \<not> valid_uuid_text ''{00000000-0000-0000_0000-000000000002}''
   \<and> \<not> wrapped_uuid_text ''{00000000-0000-0000_0000-000000000002}''
   \<and> handler_Delete (subscriptionService example_id1)
         ''{00000000-0000-0000_0000-000000000002}'' example_db
       = (\<lparr>status = 400, payload = ErrorText ''invalid subscription ID''\<rparr>, example_db)"
proof -
  have a: "\<not> valid_uuid_text ''not-a-uuid''" "\<not> wrapped_uuid_text ''not-a-uuid''"
    by code_simp+
  have b: "\<not> valid_uuid_text ''00000000-0000-0000-0000-00000000000g''"
    "\<not> wrapped_uuid_text ''00000000-0000-0000-0000-00000000000g''"
    by code_simp+
  have c: "\<not> valid_uuid_text ''{00000000-0000-0000_0000-000000000002}''"
    "\<not> wrapped_uuid_text ''{00000000-0000-0000_0000-000000000002}''"
    by code_simp+
  note ta = malformed_path_id_rejected [OF a, of "subscriptionService example_id1" example_db]
  note tb = malformed_path_id_rejected [OF b, of "subscriptionService example_id1" example_db
      "Inr \<lparr>u_ServiceName = [], u_Price = 1200, u_StartDate = [], u_EndDate = []\<rparr>"]
  note tc = malformed_path_id_rejected [OF c, of "subscriptionService example_id1" example_db]
  show ?thesis
    using a b c ta tb tc by blast
qed

end
